theory Spec2Isabelle
  imports Main "HOL-Library.AList"
begin

section \<open>Strings and identifier patterns\<close>

text \<open>
  JavaScript strings are modelled as \<^typ>\<open>string\<close>. The identifiers this service
  accepts (usernames, room ids, hexadecimal tokens) are ASCII, where one \<^typ>\<open>char\<close> is
  one UTF-16 code unit and \<open>toLowerCase\<close> maps \<open>A..Z\<close> to \<open>a..z\<close> and nothing else.
\<close>

definition lower_char :: "char \<Rightarrow> char" where
  "lower_char c =
     (if 65 \<le> (of_char c :: nat) \<and> (of_char c :: nat) \<le> 90
      then char_of ((of_char c :: nat) + 32) else c)"

definition toLowerCase :: "string \<Rightarrow> string" where
  "toLowerCase s = map lower_char s"

definition is_lower_alpha :: "char \<Rightarrow> bool" where
  "is_lower_alpha c = (97 \<le> (of_char c :: nat) \<and> (of_char c :: nat) \<le> 122)"

definition is_digit :: "char \<Rightarrow> bool" where
  "is_digit c = (48 \<le> (of_char c :: nat) \<and> (of_char c :: nat) \<le> 57)"

text \<open>The character classes \<open>[a-z]\<close> and \<open>[a-z0-9]\<close> under the \<open>i\<close> flag.\<close>

definition is_alpha_i :: "char \<Rightarrow> bool" where
  "is_alpha_i c = is_lower_alpha (lower_char c)"

definition is_alnum_i :: "char \<Rightarrow> bool" where
  "is_alnum_i c = (is_alpha_i c \<or> is_digit c)"

text \<open>
  \<open>USERNAME_REGEX = /^[a-z](?:[a-z0-9]|[-_](?=[a-z0-9])){2,29}$/i\<close>. Every iteration of
  the group consumes exactly one character, so the tail after the first letter has
  between 2 and 29 characters, each one alphanumeric or a separator directly followed by
  an alphanumeric.
\<close>

fun username_tail :: "string \<Rightarrow> bool" where
  "username_tail [] = True"
| "username_tail [c] = is_alnum_i c"
| "username_tail (c # d # cs) =
     ((is_alnum_i c \<or> ((c = CHR ''-'' \<or> c = CHR ''_'') \<and> is_alnum_i d)) \<and> username_tail (d # cs))"

fun USERNAME_REGEX_test :: "string \<Rightarrow> bool" where
  "USERNAME_REGEX_test [] = False"
| "USERNAME_REGEX_test (c # cs) =
     (is_alpha_i c \<and> 2 \<le> length cs \<and> length cs \<le> 29 \<and> username_tail cs)"

text \<open>\<open>ROOM_ID_REGEX = /^[a-z0-9]+$/i\<close>.\<close>

definition ROOM_ID_REGEX_test :: "string \<Rightarrow> bool" where
  "ROOM_ID_REGEX_test s = (s \<noteq> [] \<and> list_all is_alnum_i s)"

text \<open>
  \<open>String.prototype.startsWith\<close>, \<open>String.prototype.includes\<close>, and the last piece
  of \<open>split(":")\<close>.
\<close>

definition startsWith :: "string \<Rightarrow> string \<Rightarrow> bool" where
  "startsWith s p = (take (length p) s = p)"

fun str_includes :: "string \<Rightarrow> string \<Rightarrow> bool" where
  "str_includes [] sub = (sub = [])"
| "str_includes (c # cs) sub = (startsWith (c # cs) sub \<or> str_includes cs sub)"

definition last_segment :: "string \<Rightarrow> string" where
  "last_segment k = rev (takeWhile (\<lambda>c. c \<noteq> CHR '':'') (rev k))"

text \<open>
  \<open>crypto.randomBytes(n).toString("hex")\<close>: the \<open>n\<close> random bytes are the parameter
  \<open>rnd\<close>, read as one big-endian number; the result has \<open>2 * n\<close> lowercase hexadecimal
  digits.
\<close>

definition hex_digit :: "nat \<Rightarrow> char" where
  "hex_digit d = ''0123456789abcdef'' ! (d mod 16)"

fun hex_digits :: "nat \<Rightarrow> nat \<Rightarrow> string" where
  "hex_digits 0 n = []"
| "hex_digits (Suc k) n = hex_digits k (n div 16) @ [hex_digit n]"

definition randomBytes_hex :: "nat \<Rightarrow> nat \<Rightarrow> string" where
  "randomBytes_hex n rnd = hex_digits (2 * n) rnd"

section \<open>The key-value store\<close>

text \<open>
  The Redis client is an external collaborator of the service. It is modelled as one
  keyspace of typed values with optional absolute expiry times (milliseconds, the clock
  of \<open>Date.now()\<close>). The client writes a string as it is and any other value as its JSON
  text, and it parses what it reads: \<open>get\<close> returns the value that the stored text denotes
  as JSON, and the text itself only when the text is no JSON. A stored value is therefore
  modelled by what the client returns for it:

  \<^item> \<open>Str s\<close> is a string, that is, a stored text that is no JSON;
  \<^item> \<open>Num n\<close> is a number (counters and timestamps);
  \<^item> \<open>Null\<close> and \<open>Bool b\<close> are the stored texts \<open>null\<close>, \<open>true\<close> and \<open>false\<close>, which come
    back as \<open>null\<close> and as a boolean;
  \<^item> \<open>UserObj u\<close> is an object with a string field \<open>username\<close> (a legacy token mapping);
  \<^item> \<open>LastTok t e\<close> is the object \<open>{token: t, expiredAt: e}\<close>, written as
    \<open>JSON.stringify\<close> of it;
  \<^item> \<open>UserJson u\<close> is a user record, written as \<open>JSON.stringify\<close> of it and read back as
    the object;
  \<^item> \<open>Room r\<close> is a room object;
  \<^item> \<open>Msgs xs\<close> is a Redis list of message entries, \<open>Members xs\<close> a Redis set.
\<close>

record user =
  user_name :: string
  user_lastActive :: int

record message =
  msg_id :: string
  msg_roomId :: string
  msg_username :: string
  msg_content :: string
  msg_timestamp :: int

record room =
  room_id :: string
  room_name :: string
  room_type :: "string option"
  room_createdAt :: int
  room_userCount :: int
  room_members :: "string list option"

text \<open>
  An entry of a message list, as the client returns it: a message (written as its JSON
  text), or something that does not parse.
\<close>

datatype stored = Msg message | Unparsable

datatype rval =
    Str string
  | Num int
  | Null
  | Bool bool
  | UserObj string
  | LastTok string int
  | UserJson user
  | Room room
  | Msgs "stored list"
  | Members "string list"

record entry =
  e_val :: rval
  e_exp :: "int option"

type_synonym redis = "(string \<times> entry) list"

text \<open>A call on the client either returns or rejects (the awaited promise throws).\<close>

datatype 'a js = Ret 'a | Throw

definition live :: "int \<Rightarrow> entry \<Rightarrow> bool" where
  "live now e = (case e_exp e of None \<Rightarrow> True | Some t \<Rightarrow> now < t)"

definition peek :: "redis \<Rightarrow> int \<Rightarrow> string \<Rightarrow> entry option" where
  "peek s now k =
     (case map_of s k of None \<Rightarrow> None | Some e \<Rightarrow> if live now e then Some e else None)"

definition redis_exists :: "redis \<Rightarrow> int \<Rightarrow> string \<Rightarrow> bool" where
  "redis_exists s now k = (peek s now k \<noteq> None)"

text \<open>
  \<open>GET\<close> answers \<open>WRONGTYPE\<close> on a list or a set. The stored text \<open>null\<close> comes back as
  \<open>null\<close>, which is also what a missing key gives.
\<close>

definition redis_get :: "redis \<Rightarrow> int \<Rightarrow> string \<Rightarrow> rval option js" where
  "redis_get s now k =
     (case peek s now k of
        None \<Rightarrow> Ret None
      | Some e \<Rightarrow>
          (case e_val e of
             Msgs xs \<Rightarrow> Throw
           | Members xs \<Rightarrow> Throw
           | Null \<Rightarrow> Ret None
           | v \<Rightarrow> Ret (Some v)))"

definition redis_set :: "string \<Rightarrow> rval \<Rightarrow> int option \<Rightarrow> int \<Rightarrow> redis \<Rightarrow> redis" where
  "redis_set k v ex now s =
     AList.update k \<lparr>e_val = v, e_exp = map_option (\<lambda>secs. now + secs * 1000) ex\<rparr> s"

definition redis_del :: "string \<Rightarrow> int \<Rightarrow> redis \<Rightarrow> int \<times> redis" where
  "redis_del k now s = ((if redis_exists s now k then 1 else 0), AList.delete k s)"

definition redis_expire :: "string \<Rightarrow> int \<Rightarrow> int \<Rightarrow> redis \<Rightarrow> redis" where
  "redis_expire k secs now s =
     (case peek s now k of
        None \<Rightarrow> s
      | Some e \<Rightarrow> AList.update k (e\<lparr>e_exp := Some (now + secs * 1000)\<rparr>) s)"

definition redis_setnx :: "string \<Rightarrow> rval \<Rightarrow> int \<Rightarrow> redis \<Rightarrow> bool \<times> redis" where
  "redis_setnx k v now s =
     (if redis_exists s now k then (False, s) else (True, redis_set k v None now s))"

definition redis_incr :: "string \<Rightarrow> int \<Rightarrow> redis \<Rightarrow> int js \<times> redis" where
  "redis_incr k now s =
     (case peek s now k of
        None \<Rightarrow> (Ret 1, redis_set k (Num 1) None now s)
      | Some e \<Rightarrow>
          (case e_val e of
             Num n \<Rightarrow> (Ret (n + 1), AList.update k (e\<lparr>e_val := Num (n + 1)\<rparr>) s)
           | _ \<Rightarrow> (Throw, s)))"

text \<open>
  Glob patterns as \<open>SCAN ... MATCH\<close> reads them, with \<open>*\<close> (any run of characters) and
  \<open>?\<close> (any one character). Character classes and escapes are not modelled: the
  patterns of this service are built from validated usernames, room ids and hexadecimal
  tokens, which contain neither \<open>[\<close> nor a backslash.
\<close>

fun glob_match :: "string \<Rightarrow> string \<Rightarrow> bool" where
  "glob_match [] [] = True"
| "glob_match [] (c # cs) = False"
| "glob_match (p # ps) [] = (p = CHR ''*'' \<and> glob_match ps [])"
| "glob_match (p # ps) (c # cs) =
     (if p = CHR ''*'' then glob_match ps (c # cs) \<or> glob_match (p # ps) cs
      else (p = CHR ''?'' \<or> p = c) \<and> glob_match ps cs)"

text \<open>
  The \<open>do ... while (cursor !== 0)\<close> loops around \<open>redis.scan\<close> collect every live key
  that matches; the model returns that list at once.
\<close>

definition redis_scan :: "string \<Rightarrow> int \<Rightarrow> redis \<Rightarrow> string list" where
  "redis_scan pat now s =
     filter (\<lambda>k. glob_match pat k \<and> redis_exists s now k) (remdups (map fst s))"

section \<open>JavaScript values read back from the store\<close>

text \<open>Truthiness of what \<open>redis.get\<close> returned (\<open>null\<close> when the key is absent).\<close>

fun truthy :: "rval option \<Rightarrow> bool" where
  "truthy None = False"
| "truthy (Some (Str t)) = (t \<noteq> [])"
| "truthy (Some (Num n)) = (n \<noteq> 0)"
| "truthy (Some Null) = False"
| "truthy (Some (Bool b)) = b"
| "truthy (Some v) = True"

text \<open>The text of a value whose \<open>typeof\<close> is \<open>"string"\<close>; \<open>None\<close> for every other value.\<close>

fun as_string :: "rval \<Rightarrow> string option" where
  "as_string (Str t) = Some t"
| "as_string v = None"

text \<open>
  What the client gives back for a string that the service stored as it is. The strings
  stored this way are lower-cased usernames and tokens. Of the texts that match the
  username pattern, \<open>null\<close>, \<open>true\<close> and \<open>false\<close> are JSON and come back as \<open>null\<close> or a
  boolean; every other one comes back as the string. Texts that are JSON numbers, quoted
  strings, arrays or objects are not covered: no username that matches the pattern is one,
  and a token is taken not to be one.
\<close>

definition stored_text :: "string \<Rightarrow> rval" where
  "stored_text t =
     (if t = ''null'' then Null
      else if t = ''true'' then Bool True
      else if t = ''false'' then Bool False
      else Str t)"

text \<open>
  The expression that reads a username out of a token mapping, in \<open>validateAuth\<close> and
  \<open>deleteAllUserTokens\<close>:
  \<^verbatim>\<open>typeof m === "string" ? m.toLowerCase()
     : m && typeof m === "object" && typeof m.username === "string"
     ? m.username.toLowerCase() : null\<close>
\<close>

fun mapped_lower :: "rval option \<Rightarrow> string option" where
  "mapped_lower None = None"
| "mapped_lower (Some (UserObj u)) = Some (toLowerCase u)"
| "mapped_lower (Some (UserJson u)) = Some (toLowerCase (user_name u))"
| "mapped_lower (Some v) = map_option toLowerCase (as_string v)"

section \<open>Token manager\<close>

definition USER_TTL_SECONDS :: int where "USER_TTL_SECONDS = 7776000"
definition USER_EXPIRATION_TIME :: int where "USER_EXPIRATION_TIME = 7776000"
definition TOKEN_LENGTH :: nat where "TOKEN_LENGTH = 32"
definition TOKEN_GRACE_PERIOD :: int where "TOKEN_GRACE_PERIOD = 86400 * 365"

definition CHAT_USERS_PREFIX :: string where "CHAT_USERS_PREFIX = ''chat:users:''"
definition AUTH_TOKEN_PREFIX :: string where "AUTH_TOKEN_PREFIX = ''chat:token:''"

definition generateAuthToken :: "nat \<Rightarrow> string" where
  "generateAuthToken rnd = randomBytes_hex TOKEN_LENGTH rnd"

definition getTokenKey :: "string \<Rightarrow> string" where
  "getTokenKey token = AUTH_TOKEN_PREFIX @ token"

definition getUserTokenKey :: "string \<Rightarrow> string \<Rightarrow> string" where
  "getUserTokenKey username token =
     AUTH_TOKEN_PREFIX @ ''user:'' @ toLowerCase username @ '':'' @ token"

definition getUserTokenPattern :: "string \<Rightarrow> string" where
  "getUserTokenPattern username = AUTH_TOKEN_PREFIX @ ''user:'' @ toLowerCase username @ '':*''"

definition storeToken :: "string \<Rightarrow> string \<Rightarrow> int \<Rightarrow> redis \<Rightarrow> redis" where
  "storeToken username token now s =
     (if token = [] then s
      else
        let normalizedUsername = toLowerCase username;
            s1 = redis_set (getUserTokenKey normalizedUsername token) (Num now)
                   (Some USER_EXPIRATION_TIME) now s
        in redis_set (getTokenKey token) (stored_text normalizedUsername)
             (Some USER_EXPIRATION_TIME) now s1)"

definition storeLastValidToken ::
  "string \<Rightarrow> string \<Rightarrow> int \<Rightarrow> int \<Rightarrow> int \<Rightarrow> redis \<Rightarrow> redis" where
  "storeLastValidToken username token expiredAtMs ttlSeconds now s =
     redis_set (AUTH_TOKEN_PREFIX @ ''last:'' @ toLowerCase username)
       (LastTok token expiredAtMs) (Some ttlSeconds) now s"

definition getUsernameForToken :: "string \<Rightarrow> int \<Rightarrow> redis \<Rightarrow> rval option js" where
  "getUsernameForToken token now s =
     (if token = [] then Ret None else redis_get s now (getTokenKey token))"

text \<open>
  The result of \<open>validateAuth\<close>: \<open>{valid: false}\<close> is \<open>Invalid\<close>, and
  \<open>{valid: true, expired: e}\<close> is \<open>Valid e\<close>. A missing (\<open>null\<close>) username or token is the
  empty string, which the first guard treats alike.
\<close>

datatype auth = Invalid | Valid bool

text \<open>
  The grace-period test on what the client returned for \<open>chat:token:last:{username}\<close>:
  \<^verbatim>\<open>const { token: lastToken, expiredAt } = JSON.parse(lastTokenData);
  if (lastToken === token && Date.now() < expiredAt + TOKEN_GRACE_PERIOD * 1000)\<close>
  inside a \<open>try\<close> whose \<open>catch\<close> only logs. \<open>storeLastValidToken\<close> writes the record as
  JSON text, so the client returns the object; \<open>JSON.parse\<close> first converts its argument
  to a string, for an object the text \<open>[object Object]\<close>, and throws. A string throws as
  well (it is no JSON, by the meaning of \<open>Str\<close>); a number or a boolean parses to itself
  and has neither field. So no value that the client can return passes the test.
\<close>

definition grace_ok :: "rval option \<Rightarrow> string \<Rightarrow> int \<Rightarrow> bool" where
  "grace_ok lastTokenData token now = False"

definition validateAuth :: "string \<Rightarrow> string \<Rightarrow> bool \<Rightarrow> int \<Rightarrow> redis \<Rightarrow> auth js \<times> redis" where
  "validateAuth username token allowExpired now s =
     (if username = [] \<or> token = [] then (Ret Invalid, s)
      else
        let normalizedUsername = toLowerCase username;
            userTokenKey = getUserTokenKey normalizedUsername token
        in
        if redis_exists s now userTokenKey then
          (Ret (Valid False),
           redis_expire (getTokenKey token) USER_TTL_SECONDS now
             (redis_expire userTokenKey USER_TTL_SECONDS now s))
        else
          (case getUsernameForToken token now s of
             Throw \<Rightarrow> (Throw, s)
           | Ret mappedUsername \<Rightarrow>
               if mapped_lower mappedUsername = Some normalizedUsername then
                 (Ret (Valid False),
                  redis_set userTokenKey (Num now) (Some USER_TTL_SECONDS) now
                    (redis_expire (getTokenKey token) USER_TTL_SECONDS now s))
               else
                 let legacyKey = AUTH_TOKEN_PREFIX @ normalizedUsername in
                 (case redis_get s now legacyKey of
                    Throw \<Rightarrow> (Throw, s)
                  | Ret storedToken \<Rightarrow>
                      if truthy storedToken \<and> Option.bind storedToken as_string = Some token then
                        (Ret (Valid False),
                         redis_set userTokenKey (Num now) (Some USER_TTL_SECONDS) now
                           (redis_expire legacyKey USER_TTL_SECONDS now s))
                      else if allowExpired then
                        (case redis_get s now (AUTH_TOKEN_PREFIX @ ''last:'' @ normalizedUsername) of
                           Throw \<Rightarrow> (Throw, s)
                         | Ret lastTokenData \<Rightarrow>
                             if truthy lastTokenData \<and> grace_ok lastTokenData token now
                             then (Ret (Valid True), s)
                             else (Ret Invalid, s))
                      else (Ret Invalid, s))))"

section \<open>Responses\<close>

datatype body =
    ErrorBody string
  | TokenBody string
  | MessageBody message
  | MessagesBody "message list"
  | SuccessBody
  | LogoutBody int

datatype response = Response nat body

definition createErrorResponse :: "string \<Rightarrow> nat \<Rightarrow> response" where
  "createErrorResponse msg code = Response code (ErrorBody msg)"

section \<open>Issuing a token\<close>

text \<open>
  \<open>handleGenerateToken\<close>. The request body's \<open>username\<close> is \<open>originalUsername\<close> (empty
  when missing), \<open>rnd\<close> is the randomness drawn by \<open>generateAuthToken\<close>, \<open>now\<close> the clock
  of the request. A rejected store call lands in the handler's \<open>catch\<close>.
\<close>

definition handleGenerateToken :: "string \<Rightarrow> nat \<Rightarrow> int \<Rightarrow> redis \<Rightarrow> response \<times> redis" where
  "handleGenerateToken originalUsername rnd now s =
     (if originalUsername = [] then (createErrorResponse ''Username is required'' 400, s)
      else
        let username = toLowerCase originalUsername in
        (case redis_get s now (CHAT_USERS_PREFIX @ username) of
           Throw \<Rightarrow> (createErrorResponse ''Failed to generate token'' 500, s)
         | Ret userData \<Rightarrow>
             if \<not> truthy userData then (createErrorResponse ''User not found'' 404, s)
             else
               let tokenKey = AUTH_TOKEN_PREFIX @ username in
               (case redis_get s now tokenKey of
                  Throw \<Rightarrow> (createErrorResponse ''Failed to generate token'' 500, s)
                | Ret existingToken \<Rightarrow>
                    let authToken = generateAuthToken rnd;
                        s1 = redis_set tokenKey (stored_text authToken)
                               (Some USER_EXPIRATION_TIME) now s;
                        s2 = storeToken username authToken now s1;
                        s3 = storeLastValidToken username authToken
                               (now + USER_EXPIRATION_TIME * 1000)
                               (USER_EXPIRATION_TIME + TOKEN_GRACE_PERIOD) now s2
                    in (Response 201 (TokenBody authToken), s3))))"

section \<open>Revoking and refreshing tokens\<close>

text \<open>
  \<open>redis.del\<close> with several keys deletes each and returns how many existed.
\<close>

fun redis_del_many :: "string list \<Rightarrow> int \<Rightarrow> redis \<Rightarrow> int \<times> redis" where
  "redis_del_many [] now s = (0, s)"
| "redis_del_many (k # ks) now s =
     (let (n, s1) = redis_del k now s; (m, s2) = redis_del_many ks now s1 in (n + m, s2))"

text \<open>
  In the fallback of \<open>deleteToken\<close> the scanned keys are handed to \<open>redis.del\<close> as one
  array argument (\<open>redis.del(keysToDelete)\<close>), not spread as in \<open>deleteAllUserTokens\<close>.
  The array is no key name: nothing is deleted, and the call returns 0.
\<close>

definition redis_del_array :: "string list \<Rightarrow> int \<Rightarrow> redis \<Rightarrow> int \<times> redis" where
  "redis_del_array keys now s = (0, s)"

text \<open>
  \<open>deleteToken\<close>. The owner is read from the flat mapping; when that value is truthy
  but not a string, \<open>username.toLowerCase()\<close> inside \<open>getUserTokenKey\<close> throws.
\<close>

definition deleteToken :: "string \<Rightarrow> int \<Rightarrow> redis \<Rightarrow> unit js \<times> redis" where
  "deleteToken token now s =
     (if token = [] then (Ret (), s)
      else
        let tokenKey = getTokenKey token in
        (case redis_get s now tokenKey of
           Throw \<Rightarrow> (Throw, s)
         | Ret username \<Rightarrow>
             let s1 = snd (redis_del tokenKey now s) in
             if truthy username then
               (case Option.bind username as_string of
                  None \<Rightarrow> (Throw, s1)
                | Some name \<Rightarrow> (Ret (), snd (redis_del (getUserTokenKey name token) now s1)))
             else
               let keysToDelete = redis_scan (AUTH_TOKEN_PREFIX @ ''user:*:'' @ token) now s1 in
               if keysToDelete \<noteq> [] then (Ret (), snd (redis_del_array keysToDelete now s1))
               else (Ret (), s1)))"

text \<open>
  \<open>deleteAllUserTokens\<close>, step 1: the pipeline deletes, for every per-identity key, the
  key itself and the flat mapping of the token named by the key's last segment.
\<close>

fun delete_user_token_keys :: "string list \<Rightarrow> int \<Rightarrow> redis \<Rightarrow> redis" where
  "delete_user_token_keys [] now s = s"
| "delete_user_token_keys (k # ks) now s =
     delete_user_token_keys ks now
       (snd (redis_del (getTokenKey (last_segment k)) now (snd (redis_del k now s))))"

text \<open>
  Step 2: the loop over the keys found under \<open>chat:token:*\<close>; it only reads, and collects
  the flat mappings whose value names the user.
\<close>

fun collect_old_token_keys ::
  "string list \<Rightarrow> string \<Rightarrow> int \<Rightarrow> redis \<Rightarrow> string list js" where
  "collect_old_token_keys [] normalizedUsername now s = Ret []"
| "collect_old_token_keys (k # ks) normalizedUsername now s =
     (if str_includes k ('':'' @ normalizedUsername @ '':'') \<or> str_includes k '':user:''
      then collect_old_token_keys ks normalizedUsername now s
      else if startsWith k (AUTH_TOKEN_PREFIX @ ''last:'')
      then collect_old_token_keys ks normalizedUsername now s
      else if k = AUTH_TOKEN_PREFIX @ normalizedUsername
      then collect_old_token_keys ks normalizedUsername now s
      else
        (case redis_get s now k of
           Throw \<Rightarrow> Throw
         | Ret mappedUser \<Rightarrow>
             (case collect_old_token_keys ks normalizedUsername now s of
                Throw \<Rightarrow> Throw
              | Ret found \<Rightarrow>
                  if mapped_lower mappedUser = Some normalizedUsername then Ret (k # found)
                  else Ret found)))"

definition deleteAllUserTokens :: "string \<Rightarrow> int \<Rightarrow> redis \<Rightarrow> int js \<times> redis" where
  "deleteAllUserTokens username now s =
     (let normalizedUsername = toLowerCase username;
          userTokenKeys = redis_scan (getUserTokenPattern normalizedUsername) now s;
          s1 = (if userTokenKeys \<noteq> [] then delete_user_token_keys userTokenKeys now s else s);
          deletedCount1 = (if userTokenKeys \<noteq> [] then int (length userTokenKeys) else 0);
          foundKeys = redis_scan (AUTH_TOKEN_PREFIX @ ''*'') now s1
      in
      (case collect_old_token_keys foundKeys normalizedUsername now s1 of
         Throw \<Rightarrow> (Throw, s1)
       | Ret oldTokenKeysToDelete \<Rightarrow>
           let (deleted, s2) =
                 (if oldTokenKeysToDelete \<noteq> [] then redis_del_many oldTokenKeysToDelete now s1
                  else (0, s1));
               (legacyDeleted, s3) = redis_del (AUTH_TOKEN_PREFIX @ normalizedUsername) now s2;
               (lastDeleted, s4) =
                 redis_del (AUTH_TOKEN_PREFIX @ ''last:'' @ normalizedUsername) now s3
           in (Ret (deletedCount1 + deleted + legacyDeleted + lastDeleted), s4)))"

text \<open>
  \<open>handleLogoutAllDevices\<close>; the response carries \<open>deletedCount\<close> (also printed as
  "Logged out from N devices").
\<close>

definition handleLogoutAllDevices :: "string \<Rightarrow> int \<Rightarrow> redis \<Rightarrow> response \<times> redis" where
  "handleLogoutAllDevices username now s =
     (case deleteAllUserTokens username now s of
        (Throw, s1) \<Rightarrow> (createErrorResponse ''Failed to logout all devices'' 500, s1)
      | (Ret deletedCount, s1) \<Rightarrow> (Response 200 (LogoutBody deletedCount), s1))"

text \<open>\<open>handleRefreshToken\<close>.\<close>

definition handleRefreshToken ::
  "string \<Rightarrow> string \<Rightarrow> nat \<Rightarrow> int \<Rightarrow> redis \<Rightarrow> response \<times> redis" where
  "handleRefreshToken originalUsername oldToken rnd now s =
     (if originalUsername = [] \<or> oldToken = []
      then (createErrorResponse ''Username and oldToken are required'' 400, s)
      else
        let username = toLowerCase originalUsername in
        (case redis_get s now (CHAT_USERS_PREFIX @ username) of
           Throw \<Rightarrow> (createErrorResponse ''Failed to refresh token'' 500, s)
         | Ret userData \<Rightarrow>
             if \<not> truthy userData then (createErrorResponse ''User not found'' 404, s)
             else
               (case validateAuth username oldToken True now s of
                  (Throw, s1) \<Rightarrow> (createErrorResponse ''Failed to refresh token'' 500, s1)
                | (Ret Invalid, s1) \<Rightarrow>
                    (createErrorResponse ''Invalid authentication token'' 401, s1)
                | (Ret (Valid wasExpired), s1) \<Rightarrow>
                    let s2 = storeLastValidToken username oldToken now TOKEN_GRACE_PERIOD now s1 in
                    (case deleteToken oldToken now s2 of
                       (Throw, s3) \<Rightarrow> (createErrorResponse ''Failed to refresh token'' 500, s3)
                     | (Ret _, s3) \<Rightarrow>
                         let authToken = generateAuthToken rnd;
                             tokenKey = AUTH_TOKEN_PREFIX @ username;
                             s4 = redis_set tokenKey (stored_text authToken)
                                    (Some USER_EXPIRATION_TIME) now s3;
                             s5 = storeToken username authToken now s4
                         in (Response 201 (TokenBody authToken), s5)))))"

section \<open>Message sanitization\<close>

text \<open>
  The profanity filter is the one \<open>Filter\<close> object of the package \<open>bad-words\<close> that the
  module creates when it is loaded. The package is external; the model takes the two
  methods the service calls as a parameter. \<open>clean\<close> is not a pure function of its
  argument: the object keeps state between calls (the position at which its splitting
  pattern stopped), so \<open>clean\<close> maps the state and a text to the cleaned text and the next
  state. \<open>lastIndex\<close> is the state in which a request finds the object.
\<close>

record profanity_filter =
  clean :: "nat \<Rightarrow> string \<Rightarrow> string \<times> nat"
  isProfane :: "string \<Rightarrow> bool"
  lastIndex :: nat

definition escape_char :: "char \<Rightarrow> string" where
  "escape_char c =
     (if c = CHR ''&'' then ''&amp;''
      else if c = CHR ''<'' then ''&lt;''
      else if c = CHR ''>'' then ''&gt;''
      else if c = CHR 0x22 then ''&quot;''
      else if c = CHR 0x27 then ''&#39;''
      else [c])"

definition escapeHTML :: "string \<Rightarrow> string" where
  "escapeHTML str = concat (map escape_char str)"

text \<open>The class \<open>\s\<close> on 8-bit characters.\<close>

definition is_space :: "char \<Rightarrow> bool" where
  "is_space c = ((9 \<le> (of_char c :: nat) \<and> (of_char c :: nat) \<le> 13) \<or>
                 (of_char c :: nat) = 32 \<or> (of_char c :: nat) = 160)"

text \<open>
  A match of \<open>/(https?:\/\/[^\s]+)/\<close> starting at the head of the string, with the rest of
  the string after it.
\<close>

definition url_after :: "string \<Rightarrow> string \<Rightarrow> (string \<times> string) option" where
  "url_after scheme s =
     (if startsWith s scheme \<and> takeWhile (\<lambda>c. \<not> is_space c) (drop (length scheme) s) \<noteq> []
      then Some (scheme @ takeWhile (\<lambda>c. \<not> is_space c) (drop (length scheme) s),
                 dropWhile (\<lambda>c. \<not> is_space c) (drop (length scheme) s))
      else None)"

definition url_at :: "string \<Rightarrow> (string \<times> string) option" where
  "url_at s =
     (case url_after ''https://'' s of
        Some r \<Rightarrow> Some r
      | None \<Rightarrow> url_after ''http://'' s)"

datatype segment = Text string | Url string

text \<open>
  The loop over \<open>urlRegex.exec\<close> and the loop that splits the content: the text before each
  URL (possibly empty), the URL, and at the end the remaining text when there is some.
\<close>

function split_urls :: "string \<Rightarrow> string \<Rightarrow> segment list" where
  "split_urls acc [] = (if acc = [] then [] else [Text acc])"
| "split_urls acc (c # cs) =
     (case url_at (c # cs) of
        Some (url, rest) \<Rightarrow> Text acc # Url url # split_urls [] rest
      | None \<Rightarrow> split_urls (acc @ [c]) cs)"
  by pat_completeness auto

lemma url_after_shorter:
  "url_after scheme s = Some (url, rest) \<Longrightarrow> length rest \<le> length s - length scheme"
  by (auto simp: url_after_def split: if_splits intro: order_trans [OF length_dropWhile_le])

lemma url_at_shorter: "url_at s = Some (url, rest) \<Longrightarrow> length rest < length s"
proof -
  assume a: "url_at s = Some (url, rest)"
  then consider "url_after ''https://'' s = Some (url, rest)"
    | "url_after ''http://'' s = Some (url, rest)"
    by (auto simp: url_at_def split: option.splits)
  then show ?thesis
  proof cases
    case 1
    then have "s \<noteq> []" by (auto simp: url_after_def startsWith_def split: if_splits)
    with url_after_shorter [OF 1] show ?thesis by (cases s) auto
  next
    case 2
    then have "s \<noteq> []" by (auto simp: url_after_def startsWith_def split: if_splits)
    with url_after_shorter [OF 2] show ?thesis by (cases s) auto
  qed
qed

termination split_urls
  by (relation "measure (\<lambda>(acc, s). length s)") (auto dest: url_at_shorter)

fun has_url :: "segment list \<Rightarrow> bool" where
  "has_url [] = False"
| "has_url (Url u # segs) = True"
| "has_url (Text t # segs) = has_url segs"

text \<open>
  The second loop of \<open>filterProfanityPreservingUrls\<close>: every text part goes through
  \<open>filter.clean\<close>, one call after the other, and every URL is copied.
\<close>

fun render_segments ::
  "(nat \<Rightarrow> string \<Rightarrow> string \<times> nat) \<Rightarrow> nat \<Rightarrow> segment list \<Rightarrow> string \<times> nat" where
  "render_segments cl st [] = ([], st)"
| "render_segments cl st (Text t # segs) =
     (let (r, st1) = cl st t; (rest, st2) = render_segments cl st1 segs in (r @ rest, st2))"
| "render_segments cl st (Url u # segs) =
     (let (rest, st2) = render_segments cl st segs in (u @ rest, st2))"

definition sanitize_run :: "profanity_filter \<Rightarrow> string \<Rightarrow> string \<times> nat" where
  "sanitize_run flt content =
     (let segs = split_urls [] content in
      if \<not> has_url segs then clean flt (lastIndex flt) content
      else render_segments (clean flt) (lastIndex flt) segs)"

text \<open>
  \<open>filterProfanityPreservingUrls\<close> returns the text; \<open>filter_after\<close> is the filter object
  as the call leaves it.
\<close>

definition filterProfanityPreservingUrls :: "profanity_filter \<Rightarrow> string \<Rightarrow> string" where
  "filterProfanityPreservingUrls flt content = fst (sanitize_run flt content)"

definition filter_after :: "profanity_filter \<Rightarrow> string \<Rightarrow> profanity_filter" where
  "filter_after flt content = flt\<lparr>lastIndex := snd (sanitize_run flt content)\<rparr>"

section \<open>Lists in the store\<close>

text \<open>
  \<open>LRANGE\<close>, \<open>LPUSH\<close> and \<open>LTRIM\<close> with non-negative indexes, as the handlers call them.
  They answer \<open>WRONGTYPE\<close> on a key that holds something else; a list that becomes empty
  is removed.
\<close>

definition redis_lrange :: "redis \<Rightarrow> int \<Rightarrow> string \<Rightarrow> nat \<Rightarrow> nat \<Rightarrow> stored list js" where
  "redis_lrange s now k start stop =
     (case peek s now k of
        None \<Rightarrow> Ret []
      | Some e \<Rightarrow>
          (case e_val e of
             Msgs xs \<Rightarrow> Ret (take (stop + 1 - start) (drop start xs))
           | _ \<Rightarrow> Throw))"

definition redis_lpush :: "string \<Rightarrow> stored \<Rightarrow> int \<Rightarrow> redis \<Rightarrow> unit js \<times> redis" where
  "redis_lpush k x now s =
     (case peek s now k of
        None \<Rightarrow> (Ret (), redis_set k (Msgs [x]) None now s)
      | Some e \<Rightarrow>
          (case e_val e of
             Msgs xs \<Rightarrow> (Ret (), AList.update k (e\<lparr>e_val := Msgs (x # xs)\<rparr>) s)
           | _ \<Rightarrow> (Throw, s)))"

definition redis_ltrim :: "string \<Rightarrow> nat \<Rightarrow> nat \<Rightarrow> int \<Rightarrow> redis \<Rightarrow> unit js \<times> redis" where
  "redis_ltrim k start stop now s =
     (case peek s now k of
        None \<Rightarrow> (Ret (), s)
      | Some e \<Rightarrow>
          (case e_val e of
             Msgs xs \<Rightarrow>
               (let ys = take (stop + 1 - start) (drop start xs) in
                if ys = [] then (Ret (), AList.delete k s)
                else (Ret (), AList.update k (e\<lparr>e_val := Msgs ys\<rparr>) s))
           | _ \<Rightarrow> (Throw, s)))"

section \<open>Chat burst limiter\<close>

definition CHAT_ROOM_PREFIX :: string where "CHAT_ROOM_PREFIX = ''chat:room:''"
definition CHAT_MESSAGES_PREFIX :: string where "CHAT_MESSAGES_PREFIX = ''chat:messages:''"
definition CHAT_ROOM_USERS_PREFIX :: string where "CHAT_ROOM_USERS_PREFIX = ''chat:room:users:''"
definition CHAT_ROOM_PRESENCE_PREFIX :: string where "CHAT_ROOM_PRESENCE_PREFIX = ''chat:presence:''"
definition ROOM_PRESENCE_TTL_SECONDS :: int where "ROOM_PRESENCE_TTL_SECONDS = 86400"
definition MAX_MESSAGE_LENGTH :: nat where "MAX_MESSAGE_LENGTH = 1000"
definition MAX_USERNAME_LENGTH :: nat where "MAX_USERNAME_LENGTH = 30"
definition MIN_USERNAME_LENGTH :: nat where "MIN_USERNAME_LENGTH = 3"

definition CHAT_BURST_PREFIX :: string where "CHAT_BURST_PREFIX = ''rl:chat:b:''"
definition CHAT_BURST_SHORT_WINDOW_SECONDS :: int where "CHAT_BURST_SHORT_WINDOW_SECONDS = 10"
definition CHAT_BURST_SHORT_LIMIT :: int where "CHAT_BURST_SHORT_LIMIT = 3"
definition CHAT_BURST_LONG_WINDOW_SECONDS :: int where "CHAT_BURST_LONG_WINDOW_SECONDS = 60"
definition CHAT_BURST_LONG_LIMIT :: int where "CHAT_BURST_LONG_LIMIT = 20"
definition CHAT_MIN_INTERVAL_SECONDS :: int where "CHAT_MIN_INTERVAL_SECONDS = 2"

definition shortKey :: "string \<Rightarrow> string \<Rightarrow> string" where
  "shortKey roomId username = CHAT_BURST_PREFIX @ ''s:'' @ roomId @ '':'' @ username"

definition longKey :: "string \<Rightarrow> string \<Rightarrow> string" where
  "longKey roomId username = CHAT_BURST_PREFIX @ ''l:'' @ roomId @ '':'' @ username"

definition lastKey :: "string \<Rightarrow> string \<Rightarrow> string" where
  "lastKey roomId username = CHAT_BURST_PREFIX @ ''last:'' @ roomId @ '':'' @ username"

text \<open>
  \<open>parseInt\<close> without a radix: leading white space, a sign, a \<open>0x\<close> prefix, then the
  longest run of digits; \<open>None\<close> is \<open>NaN\<close>.
\<close>

definition digit_val :: "char \<Rightarrow> nat" where
  "digit_val c =
     (if is_digit c then (of_char c :: nat) - 48
      else if is_lower_alpha (lower_char c) then (of_char (lower_char c) :: nat) - 87
      else 36)"

definition parseInt_string :: "string \<Rightarrow> int option" where
  "parseInt_string str =
     (let s1 = dropWhile is_space str;
          neg = (take 1 s1 = ''-'');
          s2 = (if take 1 s1 = ''-'' \<or> take 1 s1 = ''+'' then drop 1 s1 else s1);
          hex = (startsWith s2 ''0x'' \<or> startsWith s2 ''0X'');
          radix = (if hex then 16 else 10);
          s3 = (if hex then drop 2 s2 else s2);
          ds = takeWhile (\<lambda>c. digit_val c < radix) s3
      in if ds = [] then None
         else Some ((if neg then - 1 else 1) *
                    int (foldl (\<lambda>a c. a * radix + digit_val c) 0 ds)))"

fun js_parseInt :: "rval \<Rightarrow> int option" where
  "js_parseInt (Num n) = Some n"
| "js_parseInt v = (case as_string v of None \<Rightarrow> None | Some t \<Rightarrow> parseInt_string t)"

text \<open>
  \<open>isPublicRoom = !roomObj.type || roomObj.type === "public"\<close>, where \<open>roomObj\<close> is the
  stored object, or what \<open>JSON.parse\<close> makes of a stored string (\<open>{}\<close> when it does not
  parse). Only a room object can carry a \<open>type\<close>.
\<close>

fun isPublicRoom :: "rval \<Rightarrow> bool" where
  "isPublicRoom (Room r) =
     (case room_type r of None \<Rightarrow> True | Some ty \<Rightarrow> ty = [] \<or> ty = ''public'')"
| "isPublicRoom v = True"

text \<open>\<open>delta < CHAT_MIN_INTERVAL_SECONDS\<close>, false when \<open>delta\<close> is \<open>NaN\<close>.\<close>

definition interval_hit :: "rval \<Rightarrow> int \<Rightarrow> bool" where
  "interval_hit lastSent nowSeconds =
     (case js_parseInt lastSent of
        None \<Rightarrow> False
      | Some l \<Rightarrow> nowSeconds - l < CHAT_MIN_INTERVAL_SECONDS)"

text \<open>
  The first \<open>try\<close> block of \<open>handleSendMessage\<close>. The result \<open>Some r\<close> is a response
  returned from inside the block; \<open>None\<close> means that the handler goes on, either because
  no limit was hit or because a store call threw and the \<open>catch\<close> only logged it (the
  limiter fails open).
\<close>

definition burst_limiter :: "string \<Rightarrow> string \<Rightarrow> int \<Rightarrow> redis \<Rightarrow> response option \<times> redis" where
  "burst_limiter roomId username now s =
     (case redis_get s now (CHAT_ROOM_PREFIX @ roomId) of
        Throw \<Rightarrow> (None, s)
      | Ret roomRaw \<Rightarrow>
          if \<not> truthy roomRaw then (Some (createErrorResponse ''Room not found'' 404), s)
          else if \<not> isPublicRoom (the roomRaw) then (None, s)
          else
            (case redis_incr (shortKey roomId username) now s of
               (Throw, s1) \<Rightarrow> (None, s1)
             | (Ret shortCount, s1) \<Rightarrow>
                 let s2 = (if shortCount = 1
                           then redis_expire (shortKey roomId username)
                                  CHAT_BURST_SHORT_WINDOW_SECONDS now s1
                           else s1)
                 in
                 if shortCount > CHAT_BURST_SHORT_LIMIT then
                   (Some (createErrorResponse
                      ''You're sending messages too quickly. Please slow down.'' 429), s2)
                 else
                   (case redis_incr (longKey roomId username) now s2 of
                      (Throw, s3) \<Rightarrow> (None, s3)
                    | (Ret longCount, s3) \<Rightarrow>
                        let s4 = (if longCount = 1
                                  then redis_expire (longKey roomId username)
                                         CHAT_BURST_LONG_WINDOW_SECONDS now s3
                                  else s3)
                        in
                        if longCount > CHAT_BURST_LONG_LIMIT then
                          (Some (createErrorResponse
                             ''Too many messages in a short period. Please wait a moment.'' 429),
                           s4)
                        else
                          let nowSeconds = now div 1000 in
                          (case redis_get s4 now (lastKey roomId username) of
                             Throw \<Rightarrow> (None, s4)
                           | Ret lastSent \<Rightarrow>
                               if truthy lastSent \<and> interval_hit (the lastSent) nowSeconds then
                                 (Some (createErrorResponse
                                    ''Please wait a moment before sending another message.'' 429),
                                  s4)
                               else
                                 (None,
                                  redis_set (lastKey roomId username) (Num nowSeconds)
                                    (Some CHAT_BURST_LONG_WINDOW_SECONDS) now s4)))))"

section \<open>Message store\<close>

text \<open>
  \<open>parseUserData\<close> on a truthy value: a string is parsed (\<open>null\<close> when it does not
  parse), anything else is returned as it is. The model keeps the two fields of a user
  record; a value without them reads as an empty name and time 0.
\<close>

fun parseUserData :: "rval \<Rightarrow> user option" where
  "parseUserData (UserJson u) = Some u"
| "parseUserData (UserObj n) = Some \<lparr>user_name = n, user_lastActive = 0\<rparr>"
| "parseUserData (Str t) = None"
| "parseUserData v = Some \<lparr>user_name = [], user_lastActive = 0\<rparr>"

text \<open>
  The errors \<open>ensureUserExists\<close> throws, as the \<open>catch\<close> in \<open>handleSendMessage\<close> tells
  them apart: the profanity message, a message containing "race condition", any other.
\<close>

datatype ensure_error = Profane | RaceCondition | OtherError

definition ensureUserExists ::
  "profanity_filter \<Rightarrow> string \<Rightarrow> int \<Rightarrow> redis \<Rightarrow> (ensure_error + user option) \<times> redis" where
  "ensureUserExists flt username now s =
     (let userKey = CHAT_USERS_PREFIX @ username in
      if isProfane flt username then (Inl Profane, s)
      else if length username < MIN_USERNAME_LENGTH then (Inl OtherError, s)
      else if length username > MAX_USERNAME_LENGTH then (Inl OtherError, s)
      else if \<not> USERNAME_REGEX_test username then (Inl OtherError, s)
      else
        (case redis_get s now userKey of
           Throw \<Rightarrow> (Inl OtherError, s)
         | Ret userData \<Rightarrow>
             if truthy userData then (Inr (parseUserData (the userData)), s)
             else
               let newUser = \<lparr>user_name = username, user_lastActive = now\<rparr>;
                   (created, s1) = redis_setnx userKey (UserJson newUser) now s
               in
               if created then (Inr (Some newUser), s1)
               else
                 (case redis_get s1 now userKey of
                    Throw \<Rightarrow> (Inl OtherError, s1)
                  | Ret again \<Rightarrow>
                      if truthy again then (Inr (parseUserData (the again)), s1)
                      else (Inl RaceCondition, s1))))"

definition refreshRoomPresence :: "string \<Rightarrow> string \<Rightarrow> int \<Rightarrow> redis \<Rightarrow> redis" where
  "refreshRoomPresence roomId username now s =
     (let presenceKey = CHAT_ROOM_PRESENCE_PREFIX @ roomId @ '':'' @ username in
      if redis_exists s now presenceKey
      then redis_expire presenceKey ROOM_PRESENCE_TTL_SECONDS now s
      else s)"

definition generateId :: "nat \<Rightarrow> string" where
  "generateId rnd = randomBytes_hex 16 rnd"

text \<open>
  The duplicate test on the result of \<open>lrange(key, 0, 0)\<close>: the newest entry, when it
  parses, has the same username and the same (sanitized) content.
\<close>

fun is_duplicate :: "stored list \<Rightarrow> string \<Rightarrow> string \<Rightarrow> bool" where
  "is_duplicate (Msg m # rest) username content =
     (msg_username m = username \<and> msg_content m = content)"
| "is_duplicate raw username content = False"

text \<open>
  The second \<open>try\<close> block of \<open>handleSendMessage\<close>: everything after the burst limiter.
  \<open>username\<close> is the normalized name, \<open>content\<close> the sanitized content, \<open>rnd\<close> the
  randomness of \<open>generateId\<close>. The Pusher broadcasts after the store writes are not
  modelled: they write nothing to the store and their failures are caught and logged.
\<close>

definition store_message ::
  "profanity_filter \<Rightarrow> string \<Rightarrow> string \<Rightarrow> string \<Rightarrow> nat \<Rightarrow> int \<Rightarrow> redis \<Rightarrow> response \<times> redis"
  where
  "store_message flt roomId username content rnd now s1 =
     (if \<not> redis_exists s1 now (CHAT_ROOM_PREFIX @ roomId) then
        (createErrorResponse ''Room not found'' 404, s1)
      else
        (case ensureUserExists flt username now s1 of
           (Inl Profane, s2) \<Rightarrow>
             (createErrorResponse ''Username contains inappropriate language'' 400, s2)
         | (Inl RaceCondition, s2) \<Rightarrow>
             (createErrorResponse
                ''Failed to send message due to temporary issue, please try again.'' 500, s2)
         | (Inl OtherError, s2) \<Rightarrow>
             (createErrorResponse ''Failed to verify or create user'' 500, s2)
         | (Inr None, s2) \<Rightarrow>
             (createErrorResponse ''Failed to verify or create user'' 500, s2)
         | (Inr (Some userData), s2) \<Rightarrow>
             if length content > MAX_MESSAGE_LENGTH then
               (createErrorResponse ''Message exceeds maximum length of 1000 characters'' 400, s2)
             else
               let messagesKey = CHAT_MESSAGES_PREFIX @ roomId in
               (case redis_lrange s2 now messagesKey 0 0 of
                  Throw \<Rightarrow>
                    (createErrorResponse
                       ''Failed to send message due to an internal error'' 500, s2)
                | Ret lastMessagesRaw \<Rightarrow>
                    if is_duplicate lastMessagesRaw username content then
                      (createErrorResponse ''Duplicate message detected'' 400, s2)
                    else
                      let message =
                            \<lparr>msg_id = generateId rnd, msg_roomId = roomId,
                             msg_username = username, msg_content = content,
                             msg_timestamp = now\<rparr>
                      in
                      (case redis_lpush messagesKey (Msg message) now s2 of
                         (Throw, s3) \<Rightarrow>
                           (createErrorResponse
                              ''Failed to send message due to an internal error'' 500, s3)
                       | (Ret _, s3) \<Rightarrow>
                           (case redis_ltrim messagesKey 0 99 now s3 of
                              (Throw, s4) \<Rightarrow>
                                (createErrorResponse
                                   ''Failed to send message due to an internal error'' 500, s4)
                            | (Ret _, s4) \<Rightarrow>
                                let userKey = CHAT_USERS_PREFIX @ username;
                                    s5 = redis_set userKey
                                           (UserJson (userData\<lparr>user_lastActive := now\<rparr>))
                                           None now s4;
                                    s6 = redis_expire userKey USER_EXPIRATION_TIME now s5;
                                    s7 = refreshRoomPresence roomId username now s6
                                in (Response 201 (MessageBody message), s7))))))"

text \<open>
  \<open>handleSendMessage\<close>, for a body that carries \<open>roomId\<close> and \<open>username\<close> as strings;
  \<open>content\<close> is empty when the body has none. A body that lacks \<open>roomId\<close> or \<open>username\<close>
  is outside the inputs of the model (the source then tests the patterns against the text
  \<open>undefined\<close>).
\<close>

definition handleSendMessage ::
  "profanity_filter \<Rightarrow> string \<Rightarrow> string \<Rightarrow> string \<Rightarrow> nat \<Rightarrow> int \<Rightarrow> redis \<Rightarrow> response \<times> redis"
  where
  "handleSendMessage flt roomId originalUsername originalContent rnd now s =
     (let username = toLowerCase originalUsername in
      if \<not> USERNAME_REGEX_test username then
        (createErrorResponse
           (''Invalid username: use 3-30 letters/numbers; '-' or '_' allowed '' @
            ''between characters; no spaces or symbols'') 400, s)
      else if \<not> ROOM_ID_REGEX_test roomId then
        (createErrorResponse ''Invalid room ID format'' 400, s)
      else if originalContent = [] then (createErrorResponse ''Content is required'' 400, s)
      else
        let content = escapeHTML (filterProfanityPreservingUrls flt originalContent) in
        (case burst_limiter roomId username now s of
           (Some early, s1) \<Rightarrow> (early, s1)
         | (None, s1) \<Rightarrow> store_message flt roomId username content rnd now s1))"

text \<open>
  \<open>handleGenerateRyoReply\<close>, for a body that carries \<open>roomId\<close> as a string (\<open>prompt\<close> is
  empty when the body has none). The text generation call is external: \<open>reply\<close> is what it
  returned, or \<open>Throw\<close>. The store writes stand outside any \<open>try\<close> of the handler; an
  exception there is answered by the \<open>catch\<close> of \<open>POST\<close>.
\<close>

definition handleGenerateRyoReply ::
  "profanity_filter \<Rightarrow> string \<Rightarrow> string \<Rightarrow> string js \<Rightarrow> nat \<Rightarrow> int \<Rightarrow> redis \<Rightarrow> response \<times> redis"
  where
  "handleGenerateRyoReply flt roomId prompt reply rnd now s =
     (if \<not> ROOM_ID_REGEX_test roomId then (createErrorResponse ''Invalid room ID format'' 400, s)
      else if prompt = [] then (createErrorResponse ''Prompt is required'' 400, s)
      else if \<not> redis_exists s now (CHAT_ROOM_PREFIX @ roomId) then
        (createErrorResponse ''Room not found'' 404, s)
      else
        (case reply of
           Throw \<Rightarrow> (createErrorResponse ''Failed to generate reply'' 500, s)
         | Ret replyText \<Rightarrow>
             let message =
                   \<lparr>msg_id = generateId rnd, msg_roomId = roomId, msg_username = ''ryo'',
                    msg_content = escapeHTML (filterProfanityPreservingUrls flt replyText),
                    msg_timestamp = now\<rparr>;
                 messagesKey = CHAT_MESSAGES_PREFIX @ roomId
             in
             (case redis_lpush messagesKey (Msg message) now s of
                (Throw, s1) \<Rightarrow> (createErrorResponse ''Internal server error'' 500, s1)
              | (Ret _, s1) \<Rightarrow>
                  (case redis_ltrim messagesKey 0 99 now s1 of
                     (Throw, s2) \<Rightarrow> (createErrorResponse ''Internal server error'' 500, s2)
                   | (Ret _, s2) \<Rightarrow> (Response 201 (MessageBody message), s2)))))"

text \<open>The stored log of a room, as a reader sees it at time \<open>now\<close>.\<close>

definition list_of :: "entry option \<Rightarrow> stored list" where
  "list_of p = (case p of None \<Rightarrow> [] | Some e \<Rightarrow> (case e_val e of Msgs xs \<Rightarrow> xs | _ \<Rightarrow> []))"

definition message_log :: "redis \<Rightarrow> int \<Rightarrow> string \<Rightarrow> stored list" where
  "message_log s now roomId = list_of (peek s now (CHAT_MESSAGES_PREFIX @ roomId))"

section \<open>Reading the limiter's state\<close>

text \<open>
  The value of a burst counter as \<open>INCR\<close> starts from it (0 when the key is absent or has
  expired), and the stores in which the counter keys hold numbers, as the limiter itself
  writes them.
\<close>

definition counter :: "redis \<Rightarrow> int \<Rightarrow> string \<Rightarrow> int" where
  "counter s now k =
     (case peek s now k of
        None \<Rightarrow> 0
      | Some e \<Rightarrow> (case e_val e of Num n \<Rightarrow> n | _ \<Rightarrow> 0))"

definition counter_ok :: "redis \<Rightarrow> int \<Rightarrow> string \<Rightarrow> bool" where
  "counter_ok s now k =
     (case peek s now k of
        None \<Rightarrow> True
      | Some e \<Rightarrow> (case e_val e of Num n \<Rightarrow> True | _ \<Rightarrow> False))"

text \<open>
  A room that the limiter reads and finds public, and one it finds not public (every
  room whose \<open>type\<close> is a non-empty string other than \<open>"public"\<close>, in particular
  \<open>"private"\<close>).
\<close>

definition public_room :: "redis \<Rightarrow> int \<Rightarrow> string \<Rightarrow> bool" where
  "public_room s now roomId =
     (case redis_get s now (CHAT_ROOM_PREFIX @ roomId) of
        Ret (Some v) \<Rightarrow> truthy (Some v) \<and> isPublicRoom v
      | _ \<Rightarrow> False)"

definition private_room :: "redis \<Rightarrow> int \<Rightarrow> string \<Rightarrow> bool" where
  "private_room s now roomId =
     (case redis_get s now (CHAT_ROOM_PREFIX @ roomId) of
        Ret (Some v) \<Rightarrow> truthy (Some v) \<and> \<not> isPublicRoom v
      | _ \<Rightarrow> False)"

text \<open>The error responses of \<open>handleSendMessage\<close> that the properties name.\<close>

definition tooQuickly :: response where
  "tooQuickly =
     createErrorResponse ''You're sending messages too quickly. Please slow down.'' 429"

definition tooMany :: response where
  "tooMany =
     createErrorResponse ''Too many messages in a short period. Please wait a moment.'' 429"

definition waitAMoment :: response where
  "waitAMoment =
     createErrorResponse ''Please wait a moment before sending another message.'' 429"

definition duplicateDetected :: response where
  "duplicateDetected = createErrorResponse ''Duplicate message detected'' 400"

definition tooLong :: response where
  "tooLong = createErrorResponse ''Message exceeds maximum length of 1000 characters'' 400"

text \<open>The minimum-interval test as the limiter evaluates it on the store.\<close>

definition last_hit :: "redis \<Rightarrow> int \<Rightarrow> string \<Rightarrow> string \<Rightarrow> bool" where
  "last_hit s now roomId username =
     (case redis_get s now (lastKey roomId username) of
        Ret (Some v) \<Rightarrow> truthy (Some v) \<and> interval_hit v (now div 1000)
      | _ \<Rightarrow> False)"

section \<open>Reading a room's messages\<close>

text \<open>
  What a \<open>GET\<close> request carries, as far as the router and \<open>getMessages\<close> read it: the
  query parameters \<open>action\<close> and \<open>roomId\<close>, and the headers \<open>authorization\<close> and
  \<open>x-username\<close> (\<open>None\<close> when absent).
\<close>

record request =
  param_action :: "string option"
  param_roomId :: "string option"
  header_authorization :: "string option"
  header_x_username :: "string option"

definition extractAuth :: "request \<Rightarrow> string option \<times> string option" where
  "extractAuth req =
     (case header_authorization req of
        None \<Rightarrow> (None, None)
      | Some authHeader \<Rightarrow>
          if authHeader = [] \<or> \<not> startsWith authHeader ''Bearer '' then (None, None)
          else (header_x_username req, Some (drop 7 authHeader)))"

text \<open>\<open>validateAuth\<close> tests \<open>!username || !token\<close>: \<open>null\<close> fails it like the empty string.\<close>

definition or_empty :: "string option \<Rightarrow> string" where
  "or_empty v = (case v of None \<Rightarrow> [] | Some t \<Rightarrow> t)"

text \<open>
  \<open>handleGetMessages\<close>. The parsed list keeps the entries that are message objects; what
  does not parse is dropped.
\<close>

fun parsed_messages :: "stored list \<Rightarrow> message list" where
  "parsed_messages [] = []"
| "parsed_messages (Msg m # rest) = m # parsed_messages rest"
| "parsed_messages (Unparsable # rest) = parsed_messages rest"

definition handleGetMessages :: "string \<Rightarrow> int \<Rightarrow> redis \<Rightarrow> response \<times> redis" where
  "handleGetMessages roomId now s =
     (if \<not> ROOM_ID_REGEX_test roomId then
        (createErrorResponse ''Failed to fetch messages'' 500, s)
      else if \<not> redis_exists s now (CHAT_ROOM_PREFIX @ roomId) then
        (createErrorResponse ''Room not found'' 404, s)
      else
        (case redis_lrange s now (CHAT_MESSAGES_PREFIX @ roomId) 0 19 of
           Throw \<Rightarrow> (createErrorResponse ''Failed to fetch messages'' 500, s)
         | Ret messagesStrings \<Rightarrow>
             (Response 200 (MessagesBody (parsed_messages messagesStrings)), s)))"

text \<open>
  The \<open>GET\<close> router. The actions other than \<open>getMessages\<close> are handled by \<open>other\<close>, which
  stands for the remaining cases of the \<open>switch\<close> (and for \<open>handleCheckPassword\<close>); the
  properties hold whatever those handlers do.
\<close>

definition GET_publicActions :: "string list" where
  "GET_publicActions =
     [''getRooms'', ''getMessages'', ''getBulkMessages'', ''getUsers'', ''verifyToken'']"

definition GET_switch ::
  "(request \<Rightarrow> int \<Rightarrow> redis \<Rightarrow> response \<times> redis) \<Rightarrow> request \<Rightarrow> int \<Rightarrow> redis \<Rightarrow> response \<times> redis"
  where
  "GET_switch other req now s =
     (if param_action req = Some ''getMessages'' then
        (if or_empty (param_roomId req) = [] then
           (createErrorResponse ''roomId query parameter is required'' 400, s)
         else handleGetMessages (or_empty (param_roomId req)) now s)
      else other req now s)"

definition GET ::
  "(request \<Rightarrow> int \<Rightarrow> redis \<Rightarrow> response \<times> redis) \<Rightarrow> request \<Rightarrow> int \<Rightarrow> redis \<Rightarrow> response \<times> redis"
  where
  "GET other req now s =
     (if or_empty (param_action req) \<in> set GET_publicActions \<and> param_action req \<noteq> None then
        GET_switch other req now s
      else
        let (username, token) = extractAuth req in
        (case validateAuth (or_empty username) (or_empty token) False now s of
           (Throw, s1) \<Rightarrow> (createErrorResponse ''Internal server error'' 500, s1)
         | (Ret isValid, s1) \<Rightarrow>
             if isValid = Invalid then (createErrorResponse ''Unauthorized'' 401, s1)
             else if param_action req = Some ''checkPassword'' then other req now s1
             else GET_switch other req now s1))"

section \<open>Leaving and deleting rooms\<close>

text \<open>
  \<open>SMEMBERS\<close>, and the object a handler works with after
  \<open>typeof raw === "string" ? JSON.parse(raw) : raw\<close>: a room, or an object of another
  shape (no \<open>type\<close>, no \<open>members\<close>, no \<open>userCount\<close>), or an exception when a plain string
  is handed to \<open>JSON.parse\<close>.
\<close>

definition redis_smembers :: "redis \<Rightarrow> int \<Rightarrow> string \<Rightarrow> string list js" where
  "redis_smembers s now k =
     (case peek s now k of
        None \<Rightarrow> Ret []
      | Some e \<Rightarrow> (case e_val e of Members xs \<Rightarrow> Ret xs | _ \<Rightarrow> Throw))"

fun room_of :: "rval \<Rightarrow> room option js" where
  "room_of (Room r) = Ret (Some r)"
| "room_of (Str t) = Throw"
| "room_of v = Ret None"

definition getActiveUsersInRoom :: "string \<Rightarrow> int \<Rightarrow> redis \<Rightarrow> string list" where
  "getActiveUsersInRoom roomId now s =
     map last_segment (redis_scan (CHAT_ROOM_PRESENCE_PREFIX @ roomId @ '':*'') now s)"

definition getActiveUsersAndPrune :: "string \<Rightarrow> int \<Rightarrow> redis \<Rightarrow> string list js \<times> redis" where
  "getActiveUsersAndPrune roomId now s =
     (let activeUsers = getActiveUsersInRoom roomId now s;
          roomUsersKey = CHAT_ROOM_USERS_PREFIX @ roomId
      in
      (case redis_smembers s now roomUsersKey of
         Throw \<Rightarrow> (Throw, s)
       | Ret oldSetMembers \<Rightarrow>
           if oldSetMembers \<noteq> [] then (Ret activeUsers, snd (redis_del roomUsersKey now s))
           else (Ret activeUsers, s)))"

text \<open>
  \<open>refreshRoomUserCount\<close> writes the room back with the fresh count (and without expiry).
  Here \<open>JSON.parse\<close> is guarded: a plain string gives \<open>null\<close> and nothing is written. An
  object of another shape is written back as it is (its added \<open>userCount\<close> is not
  represented).
\<close>

definition refreshRoomUserCount :: "string \<Rightarrow> int \<Rightarrow> redis \<Rightarrow> int js \<times> redis" where
  "refreshRoomUserCount roomId now s =
     (case getActiveUsersAndPrune roomId now s of
        (Throw, s1) \<Rightarrow> (Throw, s1)
      | (Ret activeUsers, s1) \<Rightarrow>
          let userCount = int (length activeUsers);
              roomKey = CHAT_ROOM_PREFIX @ roomId
          in
          (case redis_get s1 now roomKey of
             Throw \<Rightarrow> (Throw, s1)
           | Ret roomDataRaw \<Rightarrow>
               if \<not> truthy roomDataRaw then (Ret userCount, s1)
               else
                 (case the roomDataRaw of
                    Room r \<Rightarrow>
                      (Ret userCount,
                       redis_set roomKey (Room (r\<lparr>room_userCount := userCount\<rparr>)) None now s1)
                  | Str t \<Rightarrow> (Ret userCount, s1)
                  | v \<Rightarrow> (Ret userCount, redis_set roomKey v None now s1))))"

text \<open>
  The store effect of \<open>broadcastRoomsUpdated\<close> and \<open>broadcastToSpecificUsers\<close>: through
  \<open>getDetailedRooms\<close> they call \<open>getActiveUsersAndPrune(roomObj.id)\<close> for every value that
  \<open>MGET\<close> returns for the keys \<open>chat:room:*\<close>, which deletes the legacy member sets of those
  rooms. A value that is no room object has no \<open>id\<close>, which prints as \<open>undefined\<close>; a
  plain string does not parse, and \<open>MGET\<close> gives \<open>null\<close> for a list or a set. Exceptions
  are caught and logged inside the broadcast; the Pusher calls themselves do not touch the
  store.
\<close>

fun detailed_room_id :: "rval \<Rightarrow> string option" where
  "detailed_room_id (Room r) = Some (room_id r)"
| "detailed_room_id (Str t) = None"
| "detailed_room_id (Msgs xs) = None"
| "detailed_room_id (Members xs) = None"
| "detailed_room_id (Num n) = (if n = 0 then None else Some ''undefined'')"
| "detailed_room_id Null = None"
| "detailed_room_id (Bool b) = (if b then Some ''undefined'' else None)"
| "detailed_room_id v = Some ''undefined''"

definition prune_legacy_set :: "int \<Rightarrow> redis \<Rightarrow> string \<Rightarrow> redis" where
  "prune_legacy_set now s roomKey =
     (case peek s now roomKey of
        None \<Rightarrow> s
      | Some e \<Rightarrow>
          (case detailed_room_id (e_val e) of
             None \<Rightarrow> s
           | Some rid \<Rightarrow> snd (getActiveUsersAndPrune rid now s)))"

definition broadcastRoomsUpdated :: "int \<Rightarrow> redis \<Rightarrow> redis" where
  "broadcastRoomsUpdated now s =
     foldl (prune_legacy_set now) s (redis_scan (CHAT_ROOM_PREFIX @ ''*'') now s)"

definition broadcastToSpecificUsers :: "string list \<Rightarrow> int \<Rightarrow> redis \<Rightarrow> redis" where
  "broadcastToSpecificUsers usernames now s =
     (if usernames = [] then s else broadcastRoomsUpdated now s)"

text \<open>
  The pipeline that removes a room: the room record, its message log, its legacy member
  set, and every presence key found by the scan.
\<close>

definition delete_room_keys :: "string \<Rightarrow> int \<Rightarrow> redis \<Rightarrow> redis" where
  "delete_room_keys roomId now s =
     (let presenceKeys = redis_scan (CHAT_ROOM_PRESENCE_PREFIX @ roomId @ '':*'') now s in
      snd (redis_del_many
        ([CHAT_ROOM_PREFIX @ roomId, CHAT_MESSAGES_PREFIX @ roomId,
          CHAT_ROOM_USERS_PREFIX @ roomId] @ presenceKeys) now s))"

text \<open>\<open>handleDeleteRoom\<close>; \<open>username\<close> is the authenticated name of the \<open>DELETE\<close> request.\<close>

definition handleDeleteRoom :: "string \<Rightarrow> string \<Rightarrow> int \<Rightarrow> redis \<Rightarrow> response \<times> redis" where
  "handleDeleteRoom roomId username now s =
     (case redis_get s now (CHAT_ROOM_PREFIX @ roomId) of
        Throw \<Rightarrow> (createErrorResponse ''Failed to delete room'' 500, s)
      | Ret roomDataRaw \<Rightarrow>
          if \<not> truthy roomDataRaw then (createErrorResponse ''Room not found'' 404, s)
          else
            (case room_of (the roomDataRaw) of
               Throw \<Rightarrow> (createErrorResponse ''Failed to delete room'' 500, s)
             | Ret roomData \<Rightarrow>
                 (case roomData of
                    Some r \<Rightarrow>
                      if room_type r = Some ''private'' then
                        (case room_members r of
                           None \<Rightarrow>
                             (createErrorResponse
                                ''Unauthorized - not a member of this room'' 403, s)
                         | Some members \<Rightarrow>
                             if toLowerCase username \<notin> set members then
                               (createErrorResponse
                                  ''Unauthorized - not a member of this room'' 403, s)
                             else
                               let updatedMembers =
                                     filter (\<lambda>member. member \<noteq> toLowerCase username) members
                               in
                               if length updatedMembers \<le> 1 then
                                 (Response 200 SuccessBody,
                                  broadcastRoomsUpdated now (delete_room_keys roomId now s))
                               else
                                 let updatedRoom =
                                       r\<lparr>room_members := Some updatedMembers,
                                          room_userCount := int (length updatedMembers)\<rparr>;
                                     s1 = redis_set (CHAT_ROOM_PREFIX @ roomId) (Room updatedRoom)
                                            None now s;
                                     presenceKey = CHAT_ROOM_PRESENCE_PREFIX @ roomId @ '':'' @
                                                     toLowerCase username;
                                     s2 = snd (redis_del presenceKey now s1)
                                 in (Response 200 SuccessBody, broadcastRoomsUpdated now s2))
                      else if toLowerCase username \<noteq> ''ryo'' then
                        (createErrorResponse
                           ''Unauthorized - admin access required for public rooms'' 403, s)
                      else
                        (Response 200 SuccessBody,
                         broadcastRoomsUpdated now (delete_room_keys roomId now s))
                  | None \<Rightarrow>
                      if toLowerCase username \<noteq> ''ryo'' then
                        (createErrorResponse
                           ''Unauthorized - admin access required for public rooms'' 403, s)
                      else
                        (Response 200 SuccessBody,
                         broadcastRoomsUpdated now (delete_room_keys roomId now s)))))"

text \<open>
  \<open>handleLeaveRoom\<close>; \<open>roomId\<close> and \<open>originalUsername\<close> are the body fields (empty when
  missing).
\<close>

definition handleLeaveRoom :: "string \<Rightarrow> string \<Rightarrow> int \<Rightarrow> redis \<Rightarrow> response \<times> redis" where
  "handleLeaveRoom roomId originalUsername now s =
     (let username = toLowerCase originalUsername in
      if roomId = [] \<or> username = [] then
        (createErrorResponse ''Room ID and username are required'' 400, s)
      else if \<not> USERNAME_REGEX_test username then
        (createErrorResponse
           (''Invalid username: use 3-30 letters/numbers; '-' or '_' allowed '' @
            ''between characters; no spaces or symbols'') 400, s)
      else if \<not> ROOM_ID_REGEX_test roomId then
        (createErrorResponse ''Invalid room ID format'' 400, s)
      else
        (case redis_get s now (CHAT_ROOM_PREFIX @ roomId) of
           Throw \<Rightarrow> (createErrorResponse ''Failed to leave room'' 500, s)
         | Ret roomDataRaw \<Rightarrow>
             if \<not> truthy roomDataRaw then (createErrorResponse ''Room not found'' 404, s)
             else
               (case room_of (the roomDataRaw) of
                  Throw \<Rightarrow> (createErrorResponse ''Failed to leave room'' 500, s)
                | Ret roomObj \<Rightarrow>
                    let presenceKey = CHAT_ROOM_PRESENCE_PREFIX @ roomId @ '':'' @ username;
                        (removed, s1) = redis_del presenceKey now s
                    in
                    if removed = 0 then (Response 200 SuccessBody, s1)
                    else
                      (case refreshRoomUserCount roomId now s1 of
                         (Throw, s2) \<Rightarrow> (createErrorResponse ''Failed to leave room'' 500, s2)
                       | (Ret userCount, s2) \<Rightarrow>
                           (case roomObj of
                              Some r \<Rightarrow>
                                if room_type r = Some ''private'' then
                                  let updatedMembers =
                                        (case room_members r of
                                           None \<Rightarrow> []
                                         | Some members \<Rightarrow>
                                             filter (\<lambda>m. m \<noteq> username) members)
                                  in
                                  if length updatedMembers \<le> 1 then
                                    let s3 = snd (redis_del_many
                                               [CHAT_ROOM_PREFIX @ roomId,
                                                CHAT_MESSAGES_PREFIX @ roomId,
                                                CHAT_ROOM_USERS_PREFIX @ roomId] now s2);
                                        affectedMembers =
                                          (case room_members r of None \<Rightarrow> [] | Some ms \<Rightarrow> ms)
                                    in (Response 200 SuccessBody,
                                        broadcastToSpecificUsers affectedMembers now s3)
                                  else
                                    let updatedRoom =
                                          r\<lparr>room_members := Some updatedMembers,
                                             room_userCount := userCount\<rparr>;
                                        s3 = redis_set (CHAT_ROOM_PREFIX @ roomId)
                                               (Room updatedRoom) None now s2
                                    in (Response 200 SuccessBody, broadcastRoomsUpdated now s3)
                                else if userCount \<noteq> room_userCount r then
                                  (Response 200 SuccessBody, broadcastRoomsUpdated now s2)
                                else (Response 200 SuccessBody, s2)
                            | None \<Rightarrow>
                                (Response 200 SuccessBody, broadcastRoomsUpdated now s2))))))"

section \<open>Example stores\<close>

text \<open>Concrete inputs on which the theorems below are instantiated and evaluated.\<close>

definition store_alice :: redis where
  "store_alice =
     [(''chat:users:alice'',
       \<lparr>e_val = UserJson \<lparr>user_name = ''alice'', user_lastActive = 5\<rparr>, e_exp = None\<rparr>)]"

definition token_ff :: string where
  "token_ff = ''00000000000000000000000000000000000000000000000000000000000000ff''"

definition token_1000 :: string where
  "token_1000 = ''0000000000000000000000000000000000000000000000000000000000001000''"

definition store_alice_ff :: redis where
  "store_alice_ff = snd (handleGenerateToken ''alice'' 255 1000 store_alice)"

definition token_0a :: string where
  "token_0a = ''000000000000000000000000000000000000000000000000000000000000000a''"

text \<open>
  \<open>alice\<close> with a token that lives only in the legacy key \<open>chat:token:alice\<close>, as the
  password branch of \<open>handleCreateUser\<close> writes it, and the same store after a strict
  validation of that token has migrated it to the per-identity collection.
\<close>

definition store_alice_legacy :: redis where
  "store_alice_legacy =
     redis_set ''chat:token:alice'' (stored_text token_ff) (Some USER_EXPIRATION_TIME) 800
       store_alice"

definition store_alice_migrated :: redis where
  "store_alice_migrated = snd (validateAuth ''alice'' token_ff False 2000 store_alice_legacy)"

text \<open>
  \<open>alice\<close> with two tokens: \<open>token_0a\<close> issued by \<open>handleGenerateToken\<close>, and then
  \<open>token_ff\<close> written to the legacy key by the password branch of \<open>handleCreateUser\<close>.
\<close>

definition store_alice_two :: redis where
  "store_alice_two =
     redis_set ''chat:token:alice'' (stored_text token_ff) (Some USER_EXPIRATION_TIME) 800
       (snd (handleGenerateToken ''alice'' 10 500 store_alice))"

definition flt_plain :: profanity_filter where
  "flt_plain = \<lparr>clean = (\<lambda>st t. (t, st)), isProfane = (\<lambda>t. False), lastIndex = 0\<rparr>"

definition room_general :: room where
  "room_general =
     \<lparr>room_id = ''general'', room_name = ''general'', room_type = Some ''public'',
      room_createdAt = 0, room_userCount = 0, room_members = None\<rparr>"

definition msg_bob :: message where
  "msg_bob =
     \<lparr>msg_id = ''m0'', msg_roomId = ''general'', msg_username = ''bob'', msg_content = ''hi'',
      msg_timestamp = 1\<rparr>"

definition store_general_full :: redis where
  "store_general_full =
     [(''chat:room:general'', \<lparr>e_val = Room room_general, e_exp = None\<rparr>),
      (''chat:messages:general'',
       \<lparr>e_val = Msgs (replicate 100 (Msg msg_bob)), e_exp = None\<rparr>)]"

definition msg_alice_hello :: message where
  "msg_alice_hello =
     \<lparr>msg_id = ''m1'', msg_roomId = ''general'', msg_username = ''alice'',
      msg_content = ''hello'', msg_timestamp = 2\<rparr>"

definition store_general :: redis where
  "store_general = [(''chat:room:general'', \<lparr>e_val = Room room_general, e_exp = None\<rparr>)]"

definition store_general_dup :: redis where
  "store_general_dup =
     [(''chat:room:general'', \<lparr>e_val = Room room_general, e_exp = None\<rparr>),
      (''chat:messages:general'', \<lparr>e_val = Msgs [Msg msg_alice_hello], e_exp = None\<rparr>)]"

definition room_priv :: room where
  "room_priv =
     \<lparr>room_id = ''priv1'', room_name = ''@alice, @bob'', room_type = Some ''private'',
      room_createdAt = 0, room_userCount = 2, room_members = Some [''alice'', ''bob'']\<rparr>"


definition store_token_old :: redis where
  "store_token_old = [(''chat:token:'' @ token_ff, \<lparr>e_val = Str ''token'', e_exp = None\<rparr>)]"

definition msg_priv :: message where
  "msg_priv =
     \<lparr>msg_id = ''m2'', msg_roomId = ''priv1'', msg_username = ''bob'', msg_content = ''psst'',
      msg_timestamp = 3\<rparr>"

definition store_priv_chat :: redis where
  "store_priv_chat =
     [(''chat:room:priv1'', \<lparr>e_val = Room room_priv, e_exp = None\<rparr>),
      (''chat:messages:priv1'', \<lparr>e_val = Msgs [Msg msg_priv], e_exp = None\<rparr>),
      (''chat:presence:priv1:alice'', \<lparr>e_val = Num 900, e_exp = Some 86400900\<rparr>),
      (''chat:presence:priv1:bob'', \<lparr>e_val = Num 950, e_exp = Some 86400950\<rparr>)]"

definition store_priv_idle :: redis where
  "store_priv_idle =
     [(''chat:room:priv1'', \<lparr>e_val = Room room_priv, e_exp = None\<rparr>),
      (''chat:messages:priv1'', \<lparr>e_val = Msgs [Msg msg_priv], e_exp = None\<rparr>),
      (''chat:presence:priv1:bob'', \<lparr>e_val = Num 950, e_exp = Some 86400950\<rparr>)]"

text \<open>The \<open>default\<close> case of the \<open>switch\<close>, standing in for the handlers of the other actions.\<close>

definition invalid_action :: "request \<Rightarrow> int \<Rightarrow> redis \<Rightarrow> response \<times> redis" where
  "invalid_action req now s = (createErrorResponse ''Invalid action'' 400, s)"

section \<open>Properties: strings and the store\<close>

lemma lower_char_idem [simp]: "lower_char (lower_char c) = lower_char c"
  by (simp add: lower_char_def)

lemma toLowerCase_idem [simp]: "toLowerCase (toLowerCase u) = toLowerCase u"
  by (simp add: toLowerCase_def)

lemma toLowerCase_Nil_iff [simp]: "toLowerCase u = [] \<longleftrightarrow> u = []"
  by (simp add: toLowerCase_def)

lemma USERNAME_nonempty: "USERNAME_REGEX_test u \<Longrightarrow> u \<noteq> []"
  by (cases u) simp_all

lemma length_hex_digits [simp]: "length (hex_digits k n) = k"
  by (induction k arbitrary: n) simp_all

lemma length_randomBytes_hex [simp]: "length (randomBytes_hex n rnd) = 2 * n"
  by (simp add: randomBytes_hex_def)

lemma generateAuthToken_length [simp]: "length (generateAuthToken rnd) = 64"
  by (simp add: generateAuthToken_def TOKEN_LENGTH_def)

lemma generateAuthToken_nonempty [simp]: "generateAuthToken rnd \<noteq> []"
proof
  assume "generateAuthToken rnd = []"
  then have "length (generateAuthToken rnd) = 0" by simp
  then show False by simp
qed

text \<open>What a later reader sees at a key after each write.\<close>

lemma peek_set:
  "peek (redis_set k v ex now s) t k' =
     (if k' = k then
        (if live t \<lparr>e_val = v, e_exp = map_option (\<lambda>secs. now + secs * 1000) ex\<rparr>
         then Some \<lparr>e_val = v, e_exp = map_option (\<lambda>secs. now + secs * 1000) ex\<rparr> else None)
      else peek s t k')"
  by (simp add: peek_def redis_set_def update_conv)

lemma peek_delete:
  "peek (AList.delete k s) t k' = (if k' = k then None else peek s t k')"
  by (simp add: peek_def delete_conv)

lemma peek_expire:
  "peek (redis_expire k secs now s) t k' =
     (if k' = k \<and> peek s now k \<noteq> None then
        (if t < now + secs * 1000
         then map_option (\<lambda>e. e\<lparr>e_exp := Some (now + secs * 1000)\<rparr>) (peek s now k) else None)
      else peek s t k')"
proof (cases "peek s now k")
  case None
  then show ?thesis by (simp add: redis_expire_def)
next
  case (Some e)
  then show ?thesis
    by (simp add: redis_expire_def peek_def update_conv live_def)
qed

section \<open>Properties: issuing and validating tokens\<close>

text \<open>
  C1. For every username matching the accepted pattern: when \<open>handleGenerateToken\<close> has
  issued a token for it (response 201 carrying the token), \<open>validateAuth\<close> called with
  that username and token returns \<open>{valid: true, expired: false}\<close>, in either mode,
  at the instant of issuance and at any later instant within the 90-day token lifetime.
\<close>

theorem C1_validate_after_issue:
  assumes pat: "USERNAME_REGEX_test username"
    and gen: "handleGenerateToken username rnd now s = (Response 201 (TokenBody tok), s')"
    and t: "now \<le> t" "t < now + USER_EXPIRATION_TIME * 1000"
  shows "fst (validateAuth username tok allowExpired t s') = Ret (Valid False)"
proof -
  have ne: "username \<noteq> []" using pat by (rule USERNAME_nonempty)
  let ?u = "toLowerCase username"
  from gen have tok: "tok = generateAuthToken rnd"
    and s': "s' = storeLastValidToken ?u tok (now + USER_EXPIRATION_TIME * 1000)
       (USER_EXPIRATION_TIME + TOKEN_GRACE_PERIOD) now
       (storeToken ?u tok now
          (redis_set (AUTH_TOKEN_PREFIX @ ?u) (stored_text tok) (Some USER_EXPIRATION_TIME)
             now s))"
    by (auto simp: handleGenerateToken_def createErrorResponse_def Let_def
             split: js.splits if_splits)
  have k1: "getUserTokenKey ?u tok \<noteq> getTokenKey tok"
    by (simp add: getUserTokenKey_def getTokenKey_def AUTH_TOKEN_PREFIX_def)
  have k2: "getUserTokenKey ?u tok \<noteq> AUTH_TOKEN_PREFIX @ ''last:'' @ ?u"
    by (simp add: getUserTokenKey_def AUTH_TOKEN_PREFIX_def)
  have "redis_exists s' t (getUserTokenKey ?u tok)"
    using t k1 k2 unfolding s'
    by (simp add: redis_exists_def storeLastValidToken_def storeToken_def tok peek_set
          Let_def live_def)
  then show ?thesis
    using ne by (simp add: validateAuth_def tok Let_def)
qed

theorem C1_validate_after_issue_witness:
  "USERNAME_REGEX_test ''alice'' \<and>
   fst (handleGenerateToken ''alice'' 255 1000 store_alice) =
     Response 201 (TokenBody ''00000000000000000000000000000000000000000000000000000000000000ff'') \<and>
   fst (validateAuth ''alice'' ''00000000000000000000000000000000000000000000000000000000000000ff''
          False 1000 (snd (handleGenerateToken ''alice'' 255 1000 store_alice))) = Ret (Valid False)"
proof -
  have pat: "USERNAME_REGEX_test ''alice''" by code_simp
  have res: "fst (handleGenerateToken ''alice'' 255 1000 store_alice) =
      Response 201 (TokenBody ''00000000000000000000000000000000000000000000000000000000000000ff'')"
    by code_simp
  then have gen: "handleGenerateToken ''alice'' 255 1000 store_alice =
      (Response 201 (TokenBody ''00000000000000000000000000000000000000000000000000000000000000ff''),
       snd (handleGenerateToken ''alice'' 255 1000 store_alice))"
    by (simp add: prod_eq_iff)
  have t: "(1000::int) \<le> 1000" "(1000::int) < 1000 + USER_EXPIRATION_TIME * 1000"
    by (simp_all add: USER_EXPIRATION_TIME_def)
  show ?thesis
    using pat res C1_validate_after_issue [OF pat gen t] by blast
qed

lemma exists_set_keep:
  "redis_exists s t k \<Longrightarrow> t < now + secs * 1000 \<Longrightarrow>
   redis_exists (redis_set k' v (Some secs) now s) t k"
  by (simp add: redis_exists_def peek_set live_def)

lemma exists_set_same:
  "t < now + secs * 1000 \<Longrightarrow> redis_exists (redis_set k v (Some secs) now s) t k"
  by (simp add: redis_exists_def peek_set live_def)

lemma exists_expire_keep:
  "redis_exists s t k \<Longrightarrow> t < now + secs * 1000 \<Longrightarrow>
   redis_exists (redis_expire k' secs now s) t k"
  by (auto simp add: redis_exists_def peek_expire)

lemma exists_expire_same:
  "redis_exists s now k \<Longrightarrow> t < now + secs * 1000 \<Longrightarrow>
   redis_exists (redis_expire k secs now s) t k"
  by (auto simp add: redis_exists_def peek_expire)

text \<open>
  Every accepting path of a strict validation leaves the per-identity key of the token in
  the store, alive for the next 90 days: the first path refreshes its expiry, the two
  legacy paths create it (the migration).
\<close>

lemma validateAuth_strict_valid:
  assumes "validateAuth u T False t0 s = (Ret (Valid e), s1)"
    and "t0 \<le> t" "t < t0 + USER_TTL_SECONDS * 1000"
  shows "u \<noteq> [] \<and> T \<noteq> [] \<and> e = False \<and>
         redis_exists s1 t (getUserTokenKey (toLowerCase u) T)"
  using assms
  by (auto simp: validateAuth_def Let_def exists_set_same exists_expire_same
        exists_expire_keep exists_set_keep
        split: if_splits js.splits)

text \<open>Issuing a token only writes keys, each with a lifetime of 90 days or more.\<close>

lemma handleGenerateToken_keeps:
  assumes "handleGenerateToken u rnd t1 s1 = (Response 201 b, s2)"
    and "redis_exists s1 t k" "t < t1 + USER_EXPIRATION_TIME * 1000"
  shows "redis_exists s2 t k"
proof -
  have "t < t1 + (USER_EXPIRATION_TIME + TOKEN_GRACE_PERIOD) * 1000"
    using assms(3) by (simp add: TOKEN_GRACE_PERIOD_def)
  then show ?thesis
    using assms
    by (auto simp: handleGenerateToken_def createErrorResponse_def Let_def storeToken_def
          storeLastValidToken_def exists_set_keep
          split: if_splits js.splits)
qed

text \<open>
  A token that a strict validation has accepted is in the per-identity collection from then
  on, and issuing further tokens leaves it there.
\<close>

lemma validated_token_survives_issue:
  assumes v1: "validateAuth username T1 False t0 s = (Ret (Valid e), s1)"
    and gen: "handleGenerateToken username rnd t1 s1 = (Response 201 (TokenBody T2), s2)"
    and times: "t0 \<le> t1" "t1 \<le> t2" "t2 < t0 + USER_TTL_SECONDS * 1000"
  shows "fst (validateAuth username T1 allowExpired t2 s2) = Ret (Valid False)"
proof -
  have a: "username \<noteq> []" "T1 \<noteq> []"
    and b: "redis_exists s1 t2 (getUserTokenKey (toLowerCase username) T1)"
    using validateAuth_strict_valid [OF v1, of t2] times by auto
  have "t2 < t1 + USER_EXPIRATION_TIME * 1000"
    using times by (simp add: USER_TTL_SECONDS_def USER_EXPIRATION_TIME_def)
  with gen b have "redis_exists s2 t2 (getUserTokenKey (toLowerCase username) T1)"
    by (rule handleGenerateToken_keeps)
  with a show ?thesis by (simp add: validateAuth_def Let_def)
qed

text \<open>
  Claim C3, evaluated. \<open>alice\<close> holds two tokens. \<open>token_ff\<close> was written to the legacy key
  \<open>chat:token:alice\<close> by the password branch of \<open>handleCreateUser\<close> and has not been used
  since; a strict validation would accept it. Another device sends \<open>generateToken\<close> with
  the token \<open>token_0a\<close>: the router validates that token and \<open>handleGenerateToken\<close> issues
  a third one, overwriting the legacy key. From then on \<open>token_ff\<close> is rejected in both
  modes, while \<open>token_0a\<close> is still accepted.
\<close>

theorem C3_issue_overwrites_legacy_token:
  "fst (validateAuth ''alice'' token_ff False 900 store_alice_two) = Ret (Valid False) \<and>
   fst (validateAuth ''alice'' token_0a False 1000 store_alice_two) = Ret (Valid False) \<and>
   fst (handleGenerateToken ''alice'' 4096 1000
          (snd (validateAuth ''alice'' token_0a False 1000 store_alice_two))) =
     Response 201 (TokenBody token_1000) \<and>
   fst (validateAuth ''alice'' token_ff False 1100
          (snd (handleGenerateToken ''alice'' 4096 1000
             (snd (validateAuth ''alice'' token_0a False 1000 store_alice_two))))) =
     Ret Invalid \<and>
   fst (validateAuth ''alice'' token_ff True 1100
          (snd (handleGenerateToken ''alice'' 4096 1000
             (snd (validateAuth ''alice'' token_0a False 1000 store_alice_two))))) =
     Ret Invalid \<and>
   fst (validateAuth ''alice'' token_0a False 1100
          (snd (handleGenerateToken ''alice'' 4096 1000
             (snd (validateAuth ''alice'' token_0a False 1000 store_alice_two))))) =
     Ret (Valid False)"
  by code_simp

section \<open>Properties: deleting keys and scanning\<close>

lemma USERNAME_length: "USERNAME_REGEX_test u \<Longrightarrow> length u \<le> 30"
  by (cases u) simp_all

lemma length_toLowerCase [simp]: "length (toLowerCase u) = length u"
  by (simp add: toLowerCase_def)

lemma peek_None_mono: "peek s now k = None \<Longrightarrow> now \<le> t \<Longrightarrow> peek s t k = None"
  by (auto simp: peek_def live_def split: option.splits if_splits)

lemma peek_del: "peek (snd (redis_del k now s)) t k' = (if k' = k then None else peek s t k')"
  by (simp add: redis_del_def peek_delete)

lemma snd_del_many_Cons:
  "snd (redis_del_many (k # ks) now s) = snd (redis_del_many ks now (snd (redis_del k now s)))"
  by (simp add: case_prod_unfold Let_def)

lemma peek_del_many:
  "peek (snd (redis_del_many ks now s)) t k' = (if k' \<in> set ks then None else peek s t k')"
proof (induction ks arbitrary: s)
  case Nil
  then show ?case by simp
next
  case (Cons k ks)
  show ?case
    unfolding snd_del_many_Cons by (simp add: Cons.IH peek_del)
qed

lemma scan_iff: "k \<in> set (redis_scan pat now s) \<longleftrightarrow> glob_match pat k \<and> redis_exists s now k"
proof -
  have "k \<in> fst ` set s" if "redis_exists s now k"
  proof -
    from that obtain e where "map_of s k = Some e"
      by (auto simp: redis_exists_def peek_def split: option.splits)
    then have "(k, e) \<in> set s" by (rule map_of_SomeD)
    then show ?thesis by force
  qed
  then show ?thesis by (auto simp: redis_scan_def)
qed

section \<open>Properties: refreshing a token\<close>

text \<open>
  Claim C2, evaluated. First run: \<open>alice\<close> holds the token \<open>token_ff\<close> that
  \<open>handleGenerateToken\<close> issued, and refreshes it at time 5000. The refresh succeeds and
  writes the grace record for \<open>token_ff\<close>; one second later a strict validation of
  \<open>token_ff\<close> fails, and so does a validation that allows expired tokens, although the
  grace period has only begun: a second refresh with \<open>token_ff\<close> is answered 401.
  Second run: \<open>token_ff\<close> is in the per-identity collection
  but has no flat mapping (it was migrated from the legacy key). The refresh succeeds, yet
  \<open>deleteToken\<close> removes nothing, and a strict validation of \<open>token_ff\<close> still succeeds
  afterwards.
\<close>

theorem C2_refresh_leaves_old_token:
  "fst (handleRefreshToken ''alice'' token_ff 4096 5000 store_alice_ff) =
     Response 201 (TokenBody token_1000) \<and>
   redis_get (snd (handleRefreshToken ''alice'' token_ff 4096 5000 store_alice_ff)) 6000
     (AUTH_TOKEN_PREFIX @ ''last:'' @ ''alice'') = Ret (Some (LastTok token_ff 5000)) \<and>
   fst (validateAuth ''alice'' token_ff False 6000
          (snd (handleRefreshToken ''alice'' token_ff 4096 5000 store_alice_ff))) =
     Ret Invalid \<and>
   fst (validateAuth ''alice'' token_ff True 6000
          (snd (handleRefreshToken ''alice'' token_ff 4096 5000 store_alice_ff))) =
     Ret Invalid \<and>
   fst (handleRefreshToken ''alice'' token_ff 8192 6000
          (snd (handleRefreshToken ''alice'' token_ff 4096 5000 store_alice_ff))) =
     Response 401 (ErrorBody ''Invalid authentication token'') \<and>
   redis_get store_alice_migrated 5000 (getTokenKey token_ff) = Ret None \<and>
   fst (handleRefreshToken ''alice'' token_ff 4096 5000 store_alice_migrated) =
     Response 201 (TokenBody token_1000) \<and>
   fst (validateAuth ''alice'' token_ff False 6000
          (snd (handleRefreshToken ''alice'' token_ff 4096 5000 store_alice_migrated))) =
     Ret (Valid False)"
  by code_simp

section \<open>Properties: the bounded message log\<close>

lemma peek_update:
  "peek (AList.update k e s) t k' = (if k' = k then (if live t e then Some e else None) else peek s t k')"
  by (simp add: peek_def update_conv)

lemma snd_redis_incr:
  "snd (redis_incr k now s) =
     (case peek s now k of
        None \<Rightarrow> redis_set k (Num 1) None now s
      | Some e \<Rightarrow> (case e_val e of Num n \<Rightarrow> AList.update k (e\<lparr>e_val := Num (n + 1)\<rparr>) s | _ \<Rightarrow> s))"
  by (simp add: redis_incr_def split: option.split rval.split)

lemma peek_incr_other:
  "k' \<noteq> k \<Longrightarrow> peek (snd (redis_incr k now s)) t k' = peek s t k'"
  by (simp add: snd_redis_incr peek_set peek_update split: option.split rval.split)

lemma peek_setnx_other:
  "k' \<noteq> k \<Longrightarrow> peek (snd (redis_setnx k v now s)) t k' = peek s t k'"
  by (simp add: redis_setnx_def peek_set)

lemma peek_expire_other:
  "k' \<noteq> k \<Longrightarrow> peek (redis_expire k secs now s) t k' = peek s t k'"
  by (simp add: peek_expire)

lemma peek_set_other:
  "k' \<noteq> k \<Longrightarrow> peek (redis_set k v ex now s) t k' = peek s t k'"
  by (simp add: peek_set)

lemma snd_redis_lpush:
  "snd (redis_lpush k x now s) =
     (case peek s now k of
        None \<Rightarrow> redis_set k (Msgs [x]) None now s
      | Some e \<Rightarrow> (case e_val e of Msgs xs \<Rightarrow> AList.update k (e\<lparr>e_val := Msgs (x # xs)\<rparr>) s | _ \<Rightarrow> s))"
  by (simp add: redis_lpush_def split: option.split rval.split)

lemma peek_lpush_other:
  "k' \<noteq> k \<Longrightarrow> peek (snd (redis_lpush k x now s)) t k' = peek s t k'"
  by (simp add: snd_redis_lpush peek_set peek_update split: option.split rval.split)

lemma snd_redis_ltrim:
  "snd (redis_ltrim k a b now s) =
     (case peek s now k of
        None \<Rightarrow> s
      | Some e \<Rightarrow>
         (case e_val e of
            Msgs xs \<Rightarrow>
              (if take (b + 1 - a) (drop a xs) = [] then AList.delete k s
               else AList.update k (e\<lparr>e_val := Msgs (take (b + 1 - a) (drop a xs))\<rparr>) s)
          | _ \<Rightarrow> s))"
  by (simp add: redis_ltrim_def Let_def split: option.split rval.split)

lemma peek_ltrim_other:
  "k' \<noteq> k \<Longrightarrow> peek (snd (redis_ltrim k a b now s)) t k' = peek s t k'"
  by (simp add: snd_redis_ltrim peek_delete peek_update split: option.split rval.split)

lemmas peek_other = peek_incr_other peek_setnx_other peek_expire_other peek_set_other
  peek_lpush_other peek_ltrim_other

lemma msgs_key_neq [simp]:
  "CHAT_MESSAGES_PREFIX @ r \<noteq> shortKey a b"
  "CHAT_MESSAGES_PREFIX @ r \<noteq> longKey a b"
  "CHAT_MESSAGES_PREFIX @ r \<noteq> lastKey a b"
  "CHAT_MESSAGES_PREFIX @ r \<noteq> CHAT_USERS_PREFIX @ u"
  "CHAT_MESSAGES_PREFIX @ r \<noteq> CHAT_ROOM_PRESENCE_PREFIX @ p"
  "CHAT_MESSAGES_PREFIX @ r \<noteq> CHAT_ROOM_PREFIX @ q"
  by (simp_all add: CHAT_MESSAGES_PREFIX_def shortKey_def longKey_def lastKey_def
        CHAT_BURST_PREFIX_def CHAT_USERS_PREFIX_def CHAT_ROOM_PRESENCE_PREFIX_def
        CHAT_ROOM_PREFIX_def)

lemma burst_limiter_log:
  "peek (snd (burst_limiter roomId username now s)) t (CHAT_MESSAGES_PREFIX @ r) =
   peek s t (CHAT_MESSAGES_PREFIX @ r)"
  by (simp add: burst_limiter_def Let_def case_prod_unfold peek_other split: js.split)

lemma ensureUserExists_log:
  "peek (snd (ensureUserExists flt username now s)) t (CHAT_MESSAGES_PREFIX @ r) =
   peek s t (CHAT_MESSAGES_PREFIX @ r)"
  by (simp add: ensureUserExists_def Let_def case_prod_unfold peek_other split: js.split)

lemma message_log_list_of:
  "message_log s now roomId = list_of (peek s now (CHAT_MESSAGES_PREFIX @ roomId))"
  by (simp add: message_log_def)

lemma peek_live: "peek s now k = Some e \<Longrightarrow> live now e"
  by (auto simp: peek_def split: option.splits if_splits)

lemma lpush_ok_iff:
  "fst (redis_lpush k x now s) = Ret () \<longleftrightarrow>
     (case peek s now k of None \<Rightarrow> True | Some e \<Rightarrow> (case e_val e of Msgs xs \<Rightarrow> True | _ \<Rightarrow> False))"
  by (simp add: redis_lpush_def split: option.split rval.split)

lemma push_trim:
  assumes "fst (redis_lpush k x now s) = Ret ()"
  shows "fst (redis_ltrim k 0 99 now (snd (redis_lpush k x now s))) = Ret () \<and>
         list_of (peek (snd (redis_ltrim k 0 99 now (snd (redis_lpush k x now s)))) now k) =
           take 100 (x # list_of (peek s now k))"
proof (cases "peek s now k")
  case None
  then show ?thesis
    by (simp add: redis_lpush_def redis_ltrim_def peek_set peek_update live_def list_of_def Let_def)
next
  case (Some e)
  with assms obtain xs where xs: "e_val e = Msgs xs"
    by (auto simp: lpush_ok_iff split: rval.splits)
  have l: "live now e" using Some by (rule peek_live)
  have l': "live now (e\<lparr>e_val := v\<rparr>)" for v using l by (simp add: live_def)
  show ?thesis
    using Some xs l l'
    by (simp add: redis_lpush_def redis_ltrim_def peek_update list_of_def Let_def)
qed

lemma push_fail:
  "fst (redis_lpush k x now s) \<noteq> Ret () \<Longrightarrow> snd (redis_lpush k x now s) = s"
  by (simp add: redis_lpush_def split: option.splits rval.splits)


lemma msgs_key_inj [simp]: "CHAT_MESSAGES_PREFIX @ r = CHAT_MESSAGES_PREFIX @ q \<longleftrightarrow> r = q"
  by simp

lemma refreshRoomPresence_log:
  "peek (refreshRoomPresence roomId username now s) t (CHAT_MESSAGES_PREFIX @ r) =
   peek s t (CHAT_MESSAGES_PREFIX @ r)"
  by (simp add: refreshRoomPresence_def Let_def peek_other)

lemma store_message_created:
  assumes "store_message flt roomId username content rnd now s1 = (Response 201 (MessageBody m), s')"
  shows "message_log s' now roomId = take 100 (Msg m # message_log s1 now roomId)"
proof -
  let ?k = "CHAT_MESSAGES_PREFIX @ roomId"
  let ?s2 = "snd (ensureUserExists flt username now s1)"
  from assms obtain userData where
    push: "fst (redis_lpush ?k (Msg m) now ?s2) = Ret ()"
    and s': "s' = refreshRoomPresence roomId username now
        (redis_expire (CHAT_USERS_PREFIX @ username) USER_EXPIRATION_TIME now
          (redis_set (CHAT_USERS_PREFIX @ username) (UserJson (userData\<lparr>user_lastActive := now\<rparr>)) None now
            (snd (redis_ltrim ?k 0 99 now (snd (redis_lpush ?k (Msg m) now ?s2))))))"
    by (auto simp: store_message_def Let_def createErrorResponse_def case_prod_unfold
          split: if_splits js.splits sum.splits option.splits ensure_error.splits)
  have "message_log s' now roomId =
      list_of (peek (snd (redis_ltrim ?k 0 99 now (snd (redis_lpush ?k (Msg m) now ?s2)))) now ?k)"
    unfolding s' by (simp add: message_log_def refreshRoomPresence_log peek_other)
  also have "\<dots> = take 100 (Msg m # list_of (peek ?s2 now ?k))"
    using push_trim [OF push] by simp
  also have "peek ?s2 now ?k = peek s1 now ?k" by (rule ensureUserExists_log)
  finally show ?thesis by (simp add: message_log_def)
qed

lemma push_Throw: "fst (redis_lpush k x now s) = Throw \<Longrightarrow> snd (redis_lpush k x now s) = s"
  by (rule push_fail) simp

lemma trim_after_push:
  "fst (redis_lpush k x now s) = Ret u \<Longrightarrow>
   fst (redis_ltrim k 0 99 now (snd (redis_lpush k x now s))) \<noteq> Throw"
  using push_trim [of k x now s] by simp

lemma store_message_other_room:
  "room \<noteq> roomId \<Longrightarrow>
   peek (snd (store_message flt roomId username content rnd now s1)) t (CHAT_MESSAGES_PREFIX @ room) =
   peek s1 t (CHAT_MESSAGES_PREFIX @ room)"
  by (simp add: store_message_def Let_def case_prod_unfold peek_other ensureUserExists_log
        refreshRoomPresence_log
        split: js.split sum.split option.split ensure_error.split)

lemma store_message_not_created:
  assumes "\<And>m. fst (store_message flt roomId username content rnd now s1) \<noteq> Response 201 (MessageBody m)"
  shows "peek (snd (store_message flt roomId username content rnd now s1)) t (CHAT_MESSAGES_PREFIX @ roomId) =
         peek s1 t (CHAT_MESSAGES_PREFIX @ roomId)"
  using assms
  by (auto simp: store_message_def Let_def case_prod_unfold ensureUserExists_log push_Throw
        dest: trim_after_push
        split: js.splits sum.splits option.splits ensure_error.splits if_splits; blast)

lemma store_message_bound:
  "length (message_log (snd (store_message flt roomId username content rnd now s1)) now room)
     \<le> max 100 (length (message_log s1 now room))"
proof (cases "room = roomId")
  case False
  then show ?thesis by (simp add: message_log_def store_message_other_room)
next
  case True
  show ?thesis
  proof (cases "\<exists>m. fst (store_message flt roomId username content rnd now s1) = Response 201 (MessageBody m)")
    case True
    then obtain m where "store_message flt roomId username content rnd now s1 =
        (Response 201 (MessageBody m), snd (store_message flt roomId username content rnd now s1))"
      by (auto simp: prod_eq_iff)
    from store_message_created [OF this] \<open>room = roomId\<close> show ?thesis by simp
  next
    case False
    then have "\<And>m. fst (store_message flt roomId username content rnd now s1) \<noteq> Response 201 (MessageBody m)"
      by blast
    from store_message_not_created [OF this] \<open>room = roomId\<close> show ?thesis
      by (simp add: message_log_def)
  qed
qed

lemma handleSendMessage_created:
  assumes "handleSendMessage flt roomId u c rnd now s = (Response 201 (MessageBody m), s')"
  shows "message_log s' now roomId = take 100 (Msg m # message_log s now roomId)"
proof -
  let ?s1 = "snd (burst_limiter roomId (toLowerCase u) now s)"
  from assms have "store_message flt roomId (toLowerCase u)
      (escapeHTML (filterProfanityPreservingUrls flt c)) rnd now ?s1 = (Response 201 (MessageBody m), s')"
    by (auto simp: handleSendMessage_def Let_def createErrorResponse_def burst_limiter_def
          split: if_splits prod.splits option.splits js.splits)
  from store_message_created [OF this] show ?thesis
    by (simp add: message_log_def burst_limiter_log)
qed

lemma handleSendMessage_bound:
  "length (message_log (snd (handleSendMessage flt roomId u c rnd now s)) now room)
     \<le> max 100 (length (message_log s now room))"
proof -
  let ?s1 = "snd (burst_limiter roomId (toLowerCase u) now s)"
  have 1: "message_log ?s1 now room = message_log s now room"
    by (simp add: message_log_def burst_limiter_log)
  have "snd (handleSendMessage flt roomId u c rnd now s) = s \<or>
        snd (handleSendMessage flt roomId u c rnd now s) = ?s1 \<or>
        snd (handleSendMessage flt roomId u c rnd now s) =
          snd (store_message flt roomId (toLowerCase u)
                 (escapeHTML (filterProfanityPreservingUrls flt c)) rnd now ?s1)"
    by (simp add: handleSendMessage_def Let_def case_prod_unfold split: option.split)
  then show ?thesis
    using 1 store_message_bound [of flt roomId "toLowerCase u"
        "escapeHTML (filterProfanityPreservingUrls flt c)" rnd now ?s1 room]
    by auto
qed

lemma handleGenerateRyoReply_created:
  assumes "handleGenerateRyoReply flt roomId p reply rnd now s = (Response 201 (MessageBody m), s')"
  shows "message_log s' now roomId = take 100 (Msg m # message_log s now roomId)"
proof -
  let ?k = "CHAT_MESSAGES_PREFIX @ roomId"
  from assms have push: "fst (redis_lpush ?k (Msg m) now s) = Ret ()"
    and s': "s' = snd (redis_ltrim ?k 0 99 now (snd (redis_lpush ?k (Msg m) now s)))"
    by (auto simp: handleGenerateRyoReply_def Let_def createErrorResponse_def case_prod_unfold
          split: if_splits js.splits)
  show ?thesis unfolding s' message_log_def using push_trim [OF push] by simp
qed

lemma handleGenerateRyoReply_other_room:
  "room \<noteq> roomId \<Longrightarrow>
   peek (snd (handleGenerateRyoReply flt roomId p reply rnd now s)) t (CHAT_MESSAGES_PREFIX @ room) =
   peek s t (CHAT_MESSAGES_PREFIX @ room)"
  by (simp add: handleGenerateRyoReply_def Let_def case_prod_unfold peek_other
        split: js.split)

lemma handleGenerateRyoReply_not_created:
  assumes "\<And>m. fst (handleGenerateRyoReply flt roomId p reply rnd now s) \<noteq> Response 201 (MessageBody m)"
  shows "peek (snd (handleGenerateRyoReply flt roomId p reply rnd now s)) t (CHAT_MESSAGES_PREFIX @ roomId) =
         peek s t (CHAT_MESSAGES_PREFIX @ roomId)"
  using assms
  by (auto simp: handleGenerateRyoReply_def Let_def case_prod_unfold push_Throw
        dest: trim_after_push
        split: js.splits if_splits; blast)

lemma handleGenerateRyoReply_bound:
  "length (message_log (snd (handleGenerateRyoReply flt roomId p reply rnd now s)) now room)
     \<le> max 100 (length (message_log s now room))"
proof (cases "room = roomId")
  case False
  then show ?thesis by (simp add: message_log_def handleGenerateRyoReply_other_room)
next
  case True
  show ?thesis
  proof (cases "\<exists>m. fst (handleGenerateRyoReply flt roomId p reply rnd now s) = Response 201 (MessageBody m)")
    case True
    then obtain m where "handleGenerateRyoReply flt roomId p reply rnd now s =
        (Response 201 (MessageBody m), snd (handleGenerateRyoReply flt roomId p reply rnd now s))"
      by (auto simp: prod_eq_iff)
    from handleGenerateRyoReply_created [OF this] \<open>room = roomId\<close> show ?thesis by simp
  next
    case False
    then have "\<And>m. fst (handleGenerateRyoReply flt roomId p reply rnd now s) \<noteq> Response 201 (MessageBody m)"
      by blast
    from handleGenerateRyoReply_not_created [OF this] \<open>room = roomId\<close> show ?thesis
      by (simp add: message_log_def)
  qed
qed

text \<open>
  C6. One call of \<open>handleSendMessage\<close> or of \<open>handleGenerateRyoReply\<close>, whatever it
  answers, leaves every room's stored log with at most 100 entries, or with no more than it
  had; and when the call appends (response 201 with the message), the log of that room is
  the new message followed by the old log, cut to the most recent 100 entries, however long
  the log was before.
\<close>

theorem C6_log_never_exceeds_100:
  assumes "r = handleSendMessage flt roomId username content rnd now s \<or>
           r = handleGenerateRyoReply flt roomId prompt reply rnd now s"
  shows "length (message_log (snd r) now room) \<le> max 100 (length (message_log s now room)) \<and>
         (fst r = Response 201 (MessageBody m) \<longrightarrow>
            message_log (snd r) now roomId = take 100 (Msg m # message_log s now roomId))"
  using assms
proof
  assume r: "r = handleSendMessage flt roomId username content rnd now s"
  show ?thesis
    unfolding r
    using handleSendMessage_bound handleSendMessage_created [of flt roomId username content rnd now s m]
    by (auto simp: prod_eq_iff)
next
  assume r: "r = handleGenerateRyoReply flt roomId prompt reply rnd now s"
  show ?thesis
    unfolding r
    using handleGenerateRyoReply_bound
      handleGenerateRyoReply_created [of flt roomId prompt reply rnd now s m]
    by (auto simp: prod_eq_iff)
qed

theorem C6_log_never_exceeds_100_witness:
  "length (message_log store_general_full 1000 ''general'') = 100 \<and>
   fst (handleSendMessage flt_plain ''general'' ''alice'' ''hello'' 7 1000 store_general_full) =
     Response 201 (MessageBody
       \<lparr>msg_id = ''00000000000000000000000000000007'', msg_roomId = ''general'',
        msg_username = ''alice'', msg_content = ''hello'', msg_timestamp = 1000\<rparr>) \<and>
   length (message_log
     (snd (handleSendMessage flt_plain ''general'' ''alice'' ''hello'' 7 1000 store_general_full))
     1000 ''general'') \<le> 100"
proof -
  let ?r = "handleSendMessage flt_plain ''general'' ''alice'' ''hello'' 7 1000 store_general_full"
  have len: "length (message_log store_general_full 1000 ''general'') = 100"
    by code_simp
  have res: "fst ?r = Response 201 (MessageBody
       \<lparr>msg_id = ''00000000000000000000000000000007'', msg_roomId = ''general'',
        msg_username = ''alice'', msg_content = ''hello'', msg_timestamp = 1000\<rparr>)"
    by code_simp
  have hyp: "?r = ?r \<or> ?r = handleGenerateRyoReply flt_plain ''general'' [] Throw 7 1000
      store_general_full"
    by simp
  show ?thesis
    using len res C6_log_never_exceeds_100 [OF hyp, of "''general''"] by simp
qed

section \<open>Properties: the chat burst limiter\<close>

lemma live_update_val [simp]: "live t (e\<lparr>e_val := v\<rparr>) = live t e"
  by (simp add: live_def)

lemma peek_incr_same:
  "counter_ok s now k \<Longrightarrow>
   fst (redis_incr k now s) = Ret (counter s now k + 1) \<and>
   peek (snd (redis_incr k now s)) t k =
     (case peek s now k of
        None \<Rightarrow> Some \<lparr>e_val = Num 1, e_exp = None\<rparr>
      | Some e \<Rightarrow> (if live t e then Some (e\<lparr>e_val := Num (counter s now k + 1)\<rparr>) else None))"
  by (auto simp: redis_incr_def counter_ok_def counter_def peek_set peek_update live_def
        split: option.splits rval.splits)

lemma limiter_keys_neq [simp]:
  "shortKey r u \<noteq> longKey r' u'" "longKey r u \<noteq> shortKey r' u'"
  "shortKey r u \<noteq> lastKey r' u'" "lastKey r u \<noteq> shortKey r' u'"
  "longKey r u \<noteq> lastKey r' u'" "lastKey r u \<noteq> longKey r' u'"
  by (simp_all add: shortKey_def longKey_def lastKey_def CHAT_BURST_PREFIX_def)

lemma limiter_keys_other [simp]:
  "shortKey r u \<noteq> CHAT_ROOM_PREFIX @ x" "longKey r u \<noteq> CHAT_ROOM_PREFIX @ x"
  "lastKey r u \<noteq> CHAT_ROOM_PREFIX @ x"
  "shortKey r u \<noteq> CHAT_USERS_PREFIX @ x" "longKey r u \<noteq> CHAT_USERS_PREFIX @ x"
  "lastKey r u \<noteq> CHAT_USERS_PREFIX @ x"
  "shortKey r u \<noteq> CHAT_MESSAGES_PREFIX @ x" "longKey r u \<noteq> CHAT_MESSAGES_PREFIX @ x"
  "lastKey r u \<noteq> CHAT_MESSAGES_PREFIX @ x"
  "shortKey r u \<noteq> CHAT_ROOM_PRESENCE_PREFIX @ x" "longKey r u \<noteq> CHAT_ROOM_PRESENCE_PREFIX @ x"
  "lastKey r u \<noteq> CHAT_ROOM_PRESENCE_PREFIX @ x"
  by (simp_all add: shortKey_def longKey_def lastKey_def CHAT_BURST_PREFIX_def
        CHAT_ROOM_PREFIX_def CHAT_USERS_PREFIX_def CHAT_MESSAGES_PREFIX_def
        CHAT_ROOM_PRESENCE_PREFIX_def)

text \<open>The limiter on a room that is not public: nothing is read or written beyond the room.\<close>

lemma burst_limiter_private:
  "private_room s now roomId \<Longrightarrow> burst_limiter roomId username now s = (None, s)"
  by (auto simp: private_room_def burst_limiter_def split: js.splits option.splits)

lemma counter_after_incr:
  "counter_ok s now k \<Longrightarrow> counter (snd (redis_incr k now s)) now k = counter s now k + 1"
  using peek_incr_same [of s now k now]
  by (auto simp: counter_def dest: peek_live split: option.splits)

lemma fst_redis_incr:
  "fst (redis_incr k now s) =
     (case peek s now k of
        None \<Rightarrow> Ret 1
      | Some e \<Rightarrow> (case e_val e of Num n \<Rightarrow> Ret (n + 1) | _ \<Rightarrow> Throw))"
  by (simp add: redis_incr_def split: option.split rval.split)

lemma fst_incr_ok: "counter_ok s now k \<Longrightarrow> fst (redis_incr k now s) = Ret (counter s now k + 1)"
  by (auto simp: fst_redis_incr counter_ok_def counter_def split: option.splits rval.splits)

lemma fst_incr_cong:
  "peek s' now k = peek s now k \<Longrightarrow> fst (redis_incr k now s') = fst (redis_incr k now s)"
  by (simp add: fst_redis_incr)

lemma redis_get_cong: "peek s' t k = peek s t k \<Longrightarrow> redis_get s' t k = redis_get s t k"
  by (simp add: redis_get_def)

lemma public_roomD:
  "public_room s now roomId \<Longrightarrow>
   \<exists>v. redis_get s now (CHAT_ROOM_PREFIX @ roomId) = Ret (Some v) \<and> truthy (Some v) \<and> isPublicRoom v"
  by (auto simp: public_room_def split: js.splits option.splits)

lemma burst_limiter_public:
  assumes pub: "public_room s now roomId"
    and oks: "counter_ok s now (shortKey roomId u)"
    and okl: "counter_ok s now (longKey roomId u)"
  shows "fst (burst_limiter roomId u now s) =
     (if 3 \<le> counter s now (shortKey roomId u) then Some tooQuickly
      else if 20 \<le> counter s now (longKey roomId u) then Some tooMany
      else if last_hit s now roomId u then Some waitAMoment
      else None)"
proof -
  let ?SK = "shortKey roomId u" and ?LK = "longKey roomId u" and ?LastK = "lastKey roomId u"
  from pub obtain v where v: "redis_get s now (CHAT_ROOM_PREFIX @ roomId) = Ret (Some v)"
    "truthy (Some v)" "isPublicRoom v"
    by (auto dest: public_roomD)
  let ?s1 = "snd (redis_incr ?SK now s)"
  have i1: "fst (redis_incr ?SK now s) = Ret (counter s now ?SK + 1)"
    using oks by (rule fst_incr_ok)
  have i2: "fst (redis_incr ?LK now ?s1) = Ret (counter s now ?LK + 1)"
    "fst (redis_incr ?LK now (redis_expire ?SK CHAT_BURST_SHORT_WINDOW_SECONDS now ?s1)) =
       Ret (counter s now ?LK + 1)"
    unfolding fst_incr_ok [OF okl, symmetric]
    by (rule fst_incr_cong, simp add: peek_incr_other peek_expire_other)+
  have g4: "redis_get (snd (redis_incr ?LK now ?s1)) now ?LastK = redis_get s now ?LastK"
    "redis_get (snd (redis_incr ?LK now (redis_expire ?SK CHAT_BURST_SHORT_WINDOW_SECONDS now ?s1))) now ?LastK = redis_get s now ?LastK"
    "redis_get (redis_expire ?LK CHAT_BURST_LONG_WINDOW_SECONDS now (snd (redis_incr ?LK now ?s1))) now ?LastK = redis_get s now ?LastK"
    "redis_get (redis_expire ?LK CHAT_BURST_LONG_WINDOW_SECONDS now (snd (redis_incr ?LK now (redis_expire ?SK CHAT_BURST_SHORT_WINDOW_SECONDS now ?s1)))) now ?LastK = redis_get s now ?LastK"
    by (rule redis_get_cong, simp add: peek_incr_other peek_expire_other)+
  show ?thesis
  proof (cases "counter s now ?SK = 0")
    case c1: True
    show ?thesis
    proof (cases "counter s now ?LK = 0")
      case c2: True
      show ?thesis
        unfolding burst_limiter_def case_prod_unfold Let_def
        by (auto simp add: v i1 i2 g4 c1 c2 CHAT_BURST_SHORT_LIMIT_def CHAT_BURST_LONG_LIMIT_def
              waitAMoment_def last_hit_def split: js.split option.split)
    next
      case c2: False
      show ?thesis
        unfolding burst_limiter_def case_prod_unfold Let_def
        by (auto simp add: v i1 i2 g4 c1 c2 CHAT_BURST_SHORT_LIMIT_def CHAT_BURST_LONG_LIMIT_def
              tooMany_def waitAMoment_def last_hit_def split: js.split option.split)
    qed
  next
    case c1: False
    show ?thesis
    proof (cases "counter s now ?LK = 0")
      case c2: True
      show ?thesis
        unfolding burst_limiter_def case_prod_unfold Let_def
        by (auto simp add: v i1 i2 g4 c1 c2 CHAT_BURST_SHORT_LIMIT_def CHAT_BURST_LONG_LIMIT_def
              tooQuickly_def waitAMoment_def last_hit_def split: js.split option.split)
    next
      case c2: False
      show ?thesis
        unfolding burst_limiter_def case_prod_unfold Let_def
        by (auto simp add: v i1 i2 g4 c1 c2 CHAT_BURST_SHORT_LIMIT_def CHAT_BURST_LONG_LIMIT_def
              tooQuickly_def tooMany_def waitAMoment_def last_hit_def
              split: js.split option.split)
    qed
  qed
qed

lemma counter_expire [simp]:
  "0 < w \<Longrightarrow> counter (redis_expire k w now s) now k' = counter s now k'"
  by (cases "peek s now k") (auto simp: counter_def peek_expire)

lemma counter_incr_other [simp]:
  "k' \<noteq> k \<Longrightarrow> counter (snd (redis_incr k now s)) t k' = counter s t k'"
  by (simp add: counter_def peek_incr_other)

lemma counter_set_other [simp]:
  "k' \<noteq> k \<Longrightarrow> counter (redis_set k v ex now s) t k' = counter s t k'"
  by (simp add: counter_def peek_set)

lemma burst_limiter_pass_counters:
  assumes pub: "public_room s now roomId"
    and oks: "counter_ok s now (shortKey roomId u)"
    and okl: "counter_ok s now (longKey roomId u)"
    and pass: "fst (burst_limiter roomId u now s) = None"
  shows "counter (snd (burst_limiter roomId u now s)) now (shortKey roomId u) =
           counter s now (shortKey roomId u) + 1 \<and>
         counter (snd (burst_limiter roomId u now s)) now (longKey roomId u) =
           counter s now (longKey roomId u) + 1"
proof -
  let ?SK = "shortKey roomId u" and ?LK = "longKey roomId u" and ?LastK = "lastKey roomId u"
  from pub obtain v where v: "redis_get s now (CHAT_ROOM_PREFIX @ roomId) = Ret (Some v)"
    "truthy (Some v)" "isPublicRoom v"
    by (auto dest: public_roomD)
  from pass burst_limiter_public [OF pub oks okl]
  have lim: "\<not> 3 \<le> counter s now ?SK" "\<not> 20 \<le> counter s now ?LK"
    by (auto split: if_splits)
  let ?s1 = "snd (redis_incr ?SK now s)"
  have i1: "fst (redis_incr ?SK now s) = Ret (counter s now ?SK + 1)"
    using oks by (rule fst_incr_ok)
  have i2: "fst (redis_incr ?LK now ?s1) = Ret (counter s now ?LK + 1)"
    "fst (redis_incr ?LK now (redis_expire ?SK CHAT_BURST_SHORT_WINDOW_SECONDS now ?s1)) =
       Ret (counter s now ?LK + 1)"
    unfolding fst_incr_ok [OF okl, symmetric]
    by (rule fst_incr_cong, simp add: peek_incr_other peek_expire_other)+
  have okl': "counter_ok ?s1 now ?LK"
    "counter_ok (redis_expire ?SK CHAT_BURST_SHORT_WINDOW_SECONDS now ?s1) now ?LK"
    using okl by (simp_all add: counter_ok_def peek_incr_other peek_expire_other)
  have w: "0 < CHAT_BURST_SHORT_WINDOW_SECONDS" "0 < CHAT_BURST_LONG_WINDOW_SECONDS"
    by (simp_all add: CHAT_BURST_SHORT_WINDOW_SECONDS_def CHAT_BURST_LONG_WINDOW_SECONDS_def)
  show ?thesis
    unfolding burst_limiter_def case_prod_unfold Let_def
    using lim
    by (auto simp add: v i1 i2 w counter_after_incr oks okl okl'
          CHAT_BURST_SHORT_LIMIT_def CHAT_BURST_LONG_LIMIT_def
          split: js.split option.split)
qed

lemma ensureUserExists_frame:
  "k \<noteq> CHAT_USERS_PREFIX @ username \<Longrightarrow>
   peek (snd (ensureUserExists flt username now s)) t k = peek s t k"
  by (simp add: ensureUserExists_def Let_def case_prod_unfold peek_setnx_other split: js.split)

lemma refreshRoomPresence_frame:
  "k \<noteq> CHAT_ROOM_PRESENCE_PREFIX @ roomId @ '':'' @ username \<Longrightarrow>
   peek (refreshRoomPresence roomId username now s) t k = peek s t k"
  by (simp add: refreshRoomPresence_def Let_def peek_expire_other)

lemma store_message_frame:
  assumes "k \<noteq> CHAT_USERS_PREFIX @ username" "k \<noteq> CHAT_MESSAGES_PREFIX @ roomId"
    "k \<noteq> CHAT_ROOM_PRESENCE_PREFIX @ roomId @ '':'' @ username"
  shows "peek (snd (store_message flt roomId username content rnd now s1)) t k = peek s1 t k"
  using assms
  by (simp add: store_message_def Let_def case_prod_unfold ensureUserExists_frame
        refreshRoomPresence_frame peek_lpush_other peek_ltrim_other peek_set_other
        peek_expire_other
        split: js.split sum.split option.split ensure_error.split)

lemma burst_limiter_frame:
  assumes "k \<noteq> shortKey roomId u" "k \<noteq> longKey roomId u" "k \<noteq> lastKey roomId u"
  shows "peek (snd (burst_limiter roomId u now s)) t k = peek s t k"
  using assms
  by (simp add: burst_limiter_def Let_def case_prod_unfold peek_incr_other peek_expire_other
        peek_set_other split: js.split)

lemma responses_distinct [simp]:
  "tooQuickly \<noteq> duplicateDetected" "tooMany \<noteq> duplicateDetected" "waitAMoment \<noteq> duplicateDetected"
  "tooQuickly \<noteq> tooLong" "tooMany \<noteq> tooLong" "waitAMoment \<noteq> tooLong"
  "duplicateDetected \<noteq> tooLong"
  by (simp_all add: tooQuickly_def tooMany_def waitAMoment_def duplicateDetected_def tooLong_def
        createErrorResponse_def)

lemma handleSendMessage_rejected_late:
  assumes pub: "public_room s now roomId"
    and oks: "counter_ok s now (shortKey roomId (toLowerCase ou))"
    and okl: "counter_ok s now (longKey roomId (toLowerCase ou))"
    and rej: "fst (handleSendMessage flt roomId ou oc rnd now s) = duplicateDetected \<or>
              fst (handleSendMessage flt roomId ou oc rnd now s) = tooLong"
  shows "fst (burst_limiter roomId (toLowerCase ou) now s) = None \<and>
         handleSendMessage flt roomId ou oc rnd now s =
           store_message flt roomId (toLowerCase ou)
             (escapeHTML (filterProfanityPreservingUrls flt oc)) rnd now
             (snd (burst_limiter roomId (toLowerCase ou) now s))"
proof -
  have "fst (burst_limiter roomId (toLowerCase ou) now s) \<in>
          {None, Some tooQuickly, Some tooMany, Some waitAMoment}"
    using burst_limiter_public [OF pub oks okl] by simp
  then show ?thesis
    using rej
    by (auto simp: handleSendMessage_def Let_def case_prod_unfold duplicateDetected_def
          tooLong_def createErrorResponse_def tooQuickly_def tooMany_def waitAMoment_def
          split: if_splits option.splits)
qed

text \<open>
  Claim C10. In a public room whose two window counters are readable as numbers, a send that
  is answered with the duplicate error or with the length error has already passed through
  the limiter: both window counters of the sender stand one higher in the final store than
  in the initial one. Nothing on the rejecting paths writes them back.
\<close>

theorem C10_rejected_send_consumes_quota:
  assumes pub: "public_room s now roomId"
    and oks: "counter_ok s now (shortKey roomId (toLowerCase ou))"
    and okl: "counter_ok s now (longKey roomId (toLowerCase ou))"
    and rej: "fst (handleSendMessage flt roomId ou oc rnd now s) = duplicateDetected \<or>
              fst (handleSendMessage flt roomId ou oc rnd now s) = tooLong"
  shows "counter (snd (handleSendMessage flt roomId ou oc rnd now s)) now
           (shortKey roomId (toLowerCase ou)) =
           counter s now (shortKey roomId (toLowerCase ou)) + 1 \<and>
         counter (snd (handleSendMessage flt roomId ou oc rnd now s)) now
           (longKey roomId (toLowerCase ou)) =
           counter s now (longKey roomId (toLowerCase ou)) + 1"
proof -
  let ?u = "toLowerCase ou"
  let ?s1 = "snd (burst_limiter roomId ?u now s)"
  from handleSendMessage_rejected_late [OF pub oks okl rej]
  have pass: "fst (burst_limiter roomId ?u now s) = None"
    and eq: "handleSendMessage flt roomId ou oc rnd now s =
       store_message flt roomId ?u (escapeHTML (filterProfanityPreservingUrls flt oc)) rnd now ?s1"
    by simp_all
  have "counter (snd (handleSendMessage flt roomId ou oc rnd now s)) now k = counter ?s1 now k"
    if "k = shortKey roomId ?u \<or> k = longKey roomId ?u" for k
    unfolding eq counter_def using that by (auto simp: store_message_frame)
  then show ?thesis
    using burst_limiter_pass_counters [OF pub oks okl pass] by simp
qed

lemma peek_at_other_time:
  "peek s now k = Some e \<Longrightarrow> peek s t k = (if live t e then Some e else None)"
  by (auto simp: peek_def split: option.splits if_splits)

lemma burst_limiter_short_reject:
  assumes pub: "public_room s now roomId"
    and e: "peek s now (shortKey roomId u) = Some e" "e_val e = Num n" "3 \<le> n"
  shows "fst (burst_limiter roomId u now s) = Some tooQuickly"
proof -
  from pub obtain v where v: "redis_get s now (CHAT_ROOM_PREFIX @ roomId) = Ret (Some v)"
    "truthy (Some v)" "isPublicRoom v"
    by (auto dest: public_roomD)
  have i1: "fst (redis_incr (shortKey roomId u) now s) = Ret (n + 1)"
    using e by (simp add: fst_redis_incr)
  show ?thesis
    unfolding burst_limiter_def case_prod_unfold Let_def
    using e(3) by (simp add: v i1 CHAT_BURST_SHORT_LIMIT_def tooQuickly_def)
qed

lemma burst_limiter_short_key_fresh:
  assumes pub: "public_room s now roomId"
    and e: "peek s now (shortKey roomId u) = None"
  shows "peek (snd (burst_limiter roomId u now s)) t (shortKey roomId u) =
     (if t < now + 10000 then Some \<lparr>e_val = Num 1, e_exp = Some (now + 10000)\<rparr> else None)"
proof -
  let ?SK = "shortKey roomId u"
  from pub obtain v where v: "redis_get s now (CHAT_ROOM_PREFIX @ roomId) = Ret (Some v)"
    "truthy (Some v)" "isPublicRoom v"
    by (auto dest: public_roomD)
  have i1: "fst (redis_incr ?SK now s) = Ret 1"
    using e by (simp add: fst_redis_incr)
  have s1: "snd (redis_incr ?SK now s) = redis_set ?SK (Num 1) None now s"
    using e by (simp add: snd_redis_incr)
  have p: "peek (redis_expire ?SK CHAT_BURST_SHORT_WINDOW_SECONDS now (redis_set ?SK (Num 1) None now s)) t ?SK =
      (if t < now + 10000 then Some \<lparr>e_val = Num 1, e_exp = Some (now + 10000)\<rparr> else None)"
    by (simp add: peek_expire peek_set live_def CHAT_BURST_SHORT_WINDOW_SECONDS_def)
  show ?thesis
    unfolding burst_limiter_def case_prod_unfold Let_def
    by (simp add: v i1 s1 p peek_incr_other peek_expire_other peek_set_other
          CHAT_BURST_SHORT_LIMIT_def split: js.split)
qed

lemma burst_limiter_short_key_open:
  assumes pub: "public_room s now roomId"
    and e: "peek s now (shortKey roomId u) = Some \<lparr>e_val = Num n, e_exp = Some x\<rparr>" "1 \<le> n"
  shows "peek (snd (burst_limiter roomId u now s)) t (shortKey roomId u) =
     (if t < x then Some \<lparr>e_val = Num (n + 1), e_exp = Some x\<rparr> else None)"
proof -
  let ?SK = "shortKey roomId u"
  from pub obtain v where v: "redis_get s now (CHAT_ROOM_PREFIX @ roomId) = Ret (Some v)"
    "truthy (Some v)" "isPublicRoom v"
    by (auto dest: public_roomD)
  have i1: "fst (redis_incr ?SK now s) = Ret (n + 1)"
    using e by (simp add: fst_redis_incr)
  have s1: "snd (redis_incr ?SK now s) =
      AList.update ?SK \<lparr>e_val = Num (n + 1), e_exp = Some x\<rparr> s"
    using e by (simp add: snd_redis_incr)
  have p: "peek (AList.update ?SK \<lparr>e_val = Num (n + 1), e_exp = Some x\<rparr> s) t ?SK =
      (if t < x then Some \<lparr>e_val = Num (n + 1), e_exp = Some x\<rparr> else None)"
    by (simp add: peek_update live_def)
  show ?thesis
    unfolding burst_limiter_def case_prod_unfold Let_def
    using e(2)
    by (simp add: v i1 s1 p peek_incr_other peek_expire_other peek_set_other
          CHAT_BURST_SHORT_LIMIT_def split: js.split)
qed

lemma handleSendMessage_valid:
  assumes "USERNAME_REGEX_test (toLowerCase ou)" "ROOM_ID_REGEX_test roomId" "oc \<noteq> []"
  shows "handleSendMessage flt roomId ou oc rnd now s =
     (case burst_limiter roomId (toLowerCase ou) now s of
        (Some early, s1) \<Rightarrow> (early, s1)
      | (None, s1) \<Rightarrow>
          store_message flt roomId (toLowerCase ou)
            (escapeHTML (filterProfanityPreservingUrls flt oc)) rnd now s1)"
  using assms by (simp add: handleSendMessage_def Let_def)

lemma user_presence_keys_other [simp]:
  "shortKey r u \<noteq> CHAT_ROOM_PRESENCE_PREFIX @ x @ y"
  "CHAT_ROOM_PREFIX @ r \<noteq> CHAT_USERS_PREFIX @ x"
  "CHAT_ROOM_PREFIX @ r \<noteq> CHAT_MESSAGES_PREFIX @ x"
  "CHAT_ROOM_PREFIX @ r \<noteq> CHAT_ROOM_PRESENCE_PREFIX @ x"
  "CHAT_ROOM_PREFIX @ r \<noteq> shortKey a b"
  "CHAT_ROOM_PREFIX @ r \<noteq> longKey a b"
  "CHAT_ROOM_PREFIX @ r \<noteq> lastKey a b"
  by (simp_all add: shortKey_def longKey_def lastKey_def CHAT_BURST_PREFIX_def
        CHAT_ROOM_PREFIX_def CHAT_USERS_PREFIX_def CHAT_MESSAGES_PREFIX_def
        CHAT_ROOM_PRESENCE_PREFIX_def)

lemma handleSendMessage_short_key:
  assumes "USERNAME_REGEX_test (toLowerCase ou)" "ROOM_ID_REGEX_test roomId" "oc \<noteq> []"
  shows "peek (snd (handleSendMessage flt roomId ou oc rnd now s)) t (shortKey roomId (toLowerCase ou)) =
         peek (snd (burst_limiter roomId (toLowerCase ou) now s)) t (shortKey roomId (toLowerCase ou))"
  unfolding handleSendMessage_valid [OF assms]
  by (simp add: case_prod_unfold store_message_frame split: option.split)

lemma handleSendMessage_room:
  "peek (snd (handleSendMessage flt roomId ou oc rnd now s)) t (CHAT_ROOM_PREFIX @ r) =
   peek s t (CHAT_ROOM_PREFIX @ r)"
  by (simp add: handleSendMessage_def Let_def case_prod_unfold store_message_frame
        burst_limiter_frame split: option.split)

lemma public_room_cong:
  "peek s' t (CHAT_ROOM_PREFIX @ r) = peek s t (CHAT_ROOM_PREFIX @ r) \<Longrightarrow>
   public_room s' t r = public_room s t r"
  by (simp add: public_room_def redis_get_def)

lemma four_sends:
  assumes valid: "USERNAME_REGEX_test (toLowerCase ou)" "ROOM_ID_REGEX_test roomId"
      "c1 \<noteq> []" "c2 \<noteq> []" "c3 \<noteq> []" "c4 \<noteq> []"
    and pub: "public_room s0 t1 roomId" "public_room s0 t2 roomId" "public_room s0 t3 roomId"
      "public_room s0 t4 roomId"
    and fresh: "peek s0 t1 (shortKey roomId (toLowerCase ou)) = None"
    and times: "t1 \<le> t2" "t2 \<le> t3" "t3 \<le> t4" "t4 < t1 + 10000"
  shows "fst (handleSendMessage flt roomId ou c4 r4 t4
           (snd (handleSendMessage flt roomId ou c3 r3 t3
             (snd (handleSendMessage flt roomId ou c2 r2 t2
               (snd (handleSendMessage flt roomId ou c1 r1 t1 s0))))))) = tooQuickly"
proof -
  let ?u = "toLowerCase ou"
  let ?SK = "shortKey roomId ?u"
  let ?s1 = "snd (handleSendMessage flt roomId ou c1 r1 t1 s0)"
  let ?s2 = "snd (handleSendMessage flt roomId ou c2 r2 t2 ?s1)"
  let ?s3 = "snd (handleSendMessage flt roomId ou c3 r3 t3 ?s2)"
  have room: "public_room (snd (handleSendMessage flt roomId ou c r t s)) t' roomId =
      public_room s t' roomId" for c r t s t'
    by (rule public_room_cong) (rule handleSendMessage_room)
  have w1: "peek ?s1 t ?SK =
      (if t < t1 + 10000 then Some \<lparr>e_val = Num 1, e_exp = Some (t1 + 10000)\<rparr> else None)" for t
    using burst_limiter_short_key_fresh [OF pub(1) fresh]
    by (simp add: handleSendMessage_short_key [OF valid(1,2,3)])
  have p2: "public_room ?s1 t2 roomId" using pub(2) by (simp add: room)
  have e2: "peek ?s1 t2 ?SK = Some \<lparr>e_val = Num 1, e_exp = Some (t1 + 10000)\<rparr>"
    using w1 [of t2] times by simp
  have w2: "peek ?s2 t ?SK =
      (if t < t1 + 10000 then Some \<lparr>e_val = Num 2, e_exp = Some (t1 + 10000)\<rparr> else None)" for t
    using burst_limiter_short_key_open [OF p2 e2, of t]
    by (simp add: handleSendMessage_short_key [OF valid(1,2,4)])
  have p3: "public_room ?s2 t3 roomId" using pub(3) by (simp add: room)
  have e3: "peek ?s2 t3 ?SK = Some \<lparr>e_val = Num 2, e_exp = Some (t1 + 10000)\<rparr>"
    using w2 [of t3] times by simp
  have w3: "peek ?s3 t ?SK =
      (if t < t1 + 10000 then Some \<lparr>e_val = Num 3, e_exp = Some (t1 + 10000)\<rparr> else None)" for t
    using burst_limiter_short_key_open [OF p3 e3, of t]
    by (simp add: handleSendMessage_short_key [OF valid(1,2,5)])
  have p4: "public_room ?s3 t4 roomId" using pub(4) by (simp add: room)
  have e4: "peek ?s3 t4 ?SK = Some \<lparr>e_val = Num 3, e_exp = Some (t1 + 10000)\<rparr>"
    using w3 [of t4] times by simp
  have "fst (burst_limiter roomId ?u t4 ?s3) = Some tooQuickly"
    using burst_limiter_short_reject [OF p4 e4] by simp
  then show ?thesis
    by (simp add: handleSendMessage_valid [OF valid(1,2,6)] case_prod_unfold)
qed

lemma last_hit_num:
  "peek s now (lastKey r u) = Some e \<Longrightarrow> e_val e = Num l \<Longrightarrow> l \<noteq> 0 \<Longrightarrow>
   last_hit s now r u = (now div 1000 - l < 2)"
  by (simp add: last_hit_def redis_get_def interval_hit_def CHAT_MIN_INTERVAL_SECONDS_def)

lemma whole_seconds:
  fixes t1 t2 :: int
  shows "t1 + 2000 \<le> t2 \<Longrightarrow> \<not> t2 div 1000 - t1 div 1000 < 2"
    and "t1 \<le> t2 \<Longrightarrow> t2 \<le> t1 + 1000 \<Longrightarrow> t2 div 1000 - t1 div 1000 < 2"
  by linarith+

lemma burst_limiter_records:
  assumes pub: "public_room s now roomId"
    and oks: "counter_ok s now (shortKey roomId u)"
    and okl: "counter_ok s now (longKey roomId u)"
    and lastok: "redis_get s now (lastKey roomId u) \<noteq> Throw"
    and pass: "fst (burst_limiter roomId u now s) = None"
  shows "peek (snd (burst_limiter roomId u now s)) t (lastKey roomId u) =
     (if t < now + 60000
      then Some \<lparr>e_val = Num (now div 1000), e_exp = Some (now + 60000)\<rparr> else None)"
proof -
  let ?SK = "shortKey roomId u" and ?LK = "longKey roomId u" and ?LastK = "lastKey roomId u"
  from pub obtain v where v: "redis_get s now (CHAT_ROOM_PREFIX @ roomId) = Ret (Some v)"
    "truthy (Some v)" "isPublicRoom v"
    by (auto dest: public_roomD)
  from pass burst_limiter_public [OF pub oks okl]
  have lim: "\<not> 3 \<le> counter s now ?SK" "\<not> 20 \<le> counter s now ?LK" "\<not> last_hit s now roomId u"
    by (auto split: if_splits)
  let ?s1 = "snd (redis_incr ?SK now s)"
  have i1: "fst (redis_incr ?SK now s) = Ret (counter s now ?SK + 1)"
    using oks by (rule fst_incr_ok)
  have i2: "fst (redis_incr ?LK now ?s1) = Ret (counter s now ?LK + 1)"
    "fst (redis_incr ?LK now (redis_expire ?SK CHAT_BURST_SHORT_WINDOW_SECONDS now ?s1)) =
       Ret (counter s now ?LK + 1)"
    unfolding fst_incr_ok [OF okl, symmetric]
    by (rule fst_incr_cong, simp add: peek_incr_other peek_expire_other)+
  have g4: "redis_get (snd (redis_incr ?LK now ?s1)) now ?LastK = redis_get s now ?LastK"
    "redis_get (snd (redis_incr ?LK now (redis_expire ?SK CHAT_BURST_SHORT_WINDOW_SECONDS now ?s1))) now ?LastK = redis_get s now ?LastK"
    "redis_get (redis_expire ?LK CHAT_BURST_LONG_WINDOW_SECONDS now (snd (redis_incr ?LK now ?s1))) now ?LastK = redis_get s now ?LastK"
    "redis_get (redis_expire ?LK CHAT_BURST_LONG_WINDOW_SECONDS now (snd (redis_incr ?LK now (redis_expire ?SK CHAT_BURST_SHORT_WINDOW_SECONDS now ?s1)))) now ?LastK = redis_get s now ?LastK"
    by (rule redis_get_cong, simp add: peek_incr_other peek_expire_other)+
  from lastok obtain ls where ls: "redis_get s now ?LastK = Ret ls" by (cases "redis_get s now ?LastK") auto
  with lim(3) have nh: "\<not> (truthy ls \<and> interval_hit (the ls) (now div 1000))"
    by (cases ls) (auto simp: last_hit_def)
  have w60: "CHAT_BURST_LONG_WINDOW_SECONDS * 1000 = 60000"
    by (simp add: CHAT_BURST_LONG_WINDOW_SECONDS_def)
  show ?thesis
    unfolding burst_limiter_def case_prod_unfold Let_def
    using lim(1,2) nh
    by (auto simp add: v i1 i2 g4 ls peek_set live_def w60
          CHAT_BURST_SHORT_LIMIT_def CHAT_BURST_LONG_LIMIT_def
          split: js.split option.split)
qed

theorem C10_rejected_send_consumes_quota_witness:
  "fst (handleSendMessage flt_plain ''general'' ''Alice'' ''hello'' 7 5000 store_general_dup) =
     duplicateDetected \<and>
   counter store_general_dup 5000 (shortKey ''general'' ''alice'') = 0 \<and>
   counter store_general_dup 5000 (longKey ''general'' ''alice'') = 0 \<and>
   counter (snd (handleSendMessage flt_plain ''general'' ''Alice'' ''hello'' 7 5000
      store_general_dup)) 5000 (shortKey ''general'' ''alice'') = 1 \<and>
   counter (snd (handleSendMessage flt_plain ''general'' ''Alice'' ''hello'' 7 5000
      store_general_dup)) 5000 (longKey ''general'' ''alice'') = 1"
proof -
  let ?r = "handleSendMessage flt_plain ''general'' ''Alice'' ''hello'' 7 5000 store_general_dup"
  have low: "toLowerCase ''Alice'' = ''alice''"
    by code_simp
  have pub: "public_room store_general_dup 5000 ''general''"
    by code_simp
  have oks: "counter_ok store_general_dup 5000 (shortKey ''general'' (toLowerCase ''Alice''))"
    by code_simp
  have okl: "counter_ok store_general_dup 5000 (longKey ''general'' (toLowerCase ''Alice''))"
    by code_simp
  have dup: "fst ?r = duplicateDetected"
    by code_simp
  have c0: "counter store_general_dup 5000 (shortKey ''general'' ''alice'') = 0"
    "counter store_general_dup 5000 (longKey ''general'' ''alice'') = 0"
    by code_simp+
  have rej: "fst ?r = duplicateDetected \<or> fst ?r = tooLong"
    using dup by blast
  show ?thesis
    using C10_rejected_send_consumes_quota [OF pub oks okl rej] dup c0 by (simp add: low)
qed

subsection \<open>The limiter's three tests\<close>

text \<open>
  For a private room the limiter does nothing and changes nothing. For a public room whose
  window counters are readable, the limiter answers, in this order: the short-window error
  when the short counter already stood at 3, the long-window error when the long counter
  already stood at 20, the interval error when the recorded second of the last accepted
  message is less than 2 whole seconds before the current whole second; otherwise it passes
  and records the current whole second for 60 seconds. Starting from a store with no short
  counter, the fourth of four sends inside 10 seconds is answered with the short-window
  error, whatever happened to the second and third.
\<close>

lemma burst_limiter_tests:
  "(private_room s now roomId \<longrightarrow> burst_limiter roomId u now s = (None, s)) \<and>
   (public_room s now roomId \<and> counter_ok s now (shortKey roomId u) \<and>
    counter_ok s now (longKey roomId u) \<longrightarrow>
      fst (burst_limiter roomId u now s) =
        (if CHAT_BURST_SHORT_LIMIT \<le> counter s now (shortKey roomId u) then Some tooQuickly
         else if CHAT_BURST_LONG_LIMIT \<le> counter s now (longKey roomId u) then Some tooMany
         else if last_hit s now roomId u then Some waitAMoment
         else None) \<and>
      (redis_get s now (lastKey roomId u) \<noteq> Throw \<and>
       fst (burst_limiter roomId u now s) = None \<longrightarrow>
         peek (snd (burst_limiter roomId u now s)) t (lastKey roomId u) =
           (if t < now + CHAT_BURST_LONG_WINDOW_SECONDS * 1000
            then Some \<lparr>e_val = Num (now div 1000),
                        e_exp = Some (now + CHAT_BURST_LONG_WINDOW_SECONDS * 1000)\<rparr>
            else None))) \<and>
   (peek s now (lastKey roomId u) = Some e \<and> e_val e = Num (t1 div 1000) \<and> 1000 \<le> t1 \<longrightarrow>
      last_hit s now roomId u = (now div 1000 - t1 div 1000 < CHAT_MIN_INTERVAL_SECONDS) \<and>
      (t1 + CHAT_MIN_INTERVAL_SECONDS * 1000 \<le> now \<longrightarrow> \<not> last_hit s now roomId u) \<and>
      (t1 \<le> now \<and> now \<le> t1 + 1000 \<longrightarrow> last_hit s now roomId u)) \<and>
   (USERNAME_REGEX_test (toLowerCase ou) \<and> ROOM_ID_REGEX_test roomId \<and>
    c1 \<noteq> [] \<and> c2 \<noteq> [] \<and> c3 \<noteq> [] \<and> c4 \<noteq> [] \<and>
    public_room s now roomId \<and> public_room s t2 roomId \<and> public_room s t3 roomId \<and>
    public_room s t4 roomId \<and> peek s now (shortKey roomId (toLowerCase ou)) = None \<and>
    now \<le> t2 \<and> t2 \<le> t3 \<and> t3 \<le> t4 \<and> t4 < now + CHAT_BURST_SHORT_WINDOW_SECONDS * 1000 \<longrightarrow>
      fst (handleSendMessage flt roomId ou c4 r4 t4
        (snd (handleSendMessage flt roomId ou c3 r3 t3
          (snd (handleSendMessage flt roomId ou c2 r2 t2
            (snd (handleSendMessage flt roomId ou c1 r1 now s))))))) = tooQuickly)"
proof (intro conjI impI)
  assume "private_room s now roomId"
  then show "burst_limiter roomId u now s = (None, s)"
    by (rule burst_limiter_private)
next
  assume a: "public_room s now roomId \<and> counter_ok s now (shortKey roomId u) \<and>
    counter_ok s now (longKey roomId u)"
  then show "fst (burst_limiter roomId u now s) =
        (if CHAT_BURST_SHORT_LIMIT \<le> counter s now (shortKey roomId u) then Some tooQuickly
         else if CHAT_BURST_LONG_LIMIT \<le> counter s now (longKey roomId u) then Some tooMany
         else if last_hit s now roomId u then Some waitAMoment
         else None)"
    using burst_limiter_public [of s now roomId u]
    by (simp add: CHAT_BURST_SHORT_LIMIT_def CHAT_BURST_LONG_LIMIT_def)
  assume b: "redis_get s now (lastKey roomId u) \<noteq> Throw \<and>
       fst (burst_limiter roomId u now s) = None"
  show "peek (snd (burst_limiter roomId u now s)) t (lastKey roomId u) =
           (if t < now + CHAT_BURST_LONG_WINDOW_SECONDS * 1000
            then Some \<lparr>e_val = Num (now div 1000),
                        e_exp = Some (now + CHAT_BURST_LONG_WINDOW_SECONDS * 1000)\<rparr>
            else None)"
    using burst_limiter_records [of s now roomId u t] a b
    by (simp add: CHAT_BURST_LONG_WINDOW_SECONDS_def)
next
  assume c: "peek s now (lastKey roomId u) = Some e \<and> e_val e = Num (t1 div 1000) \<and> 1000 \<le> t1"
  then have nz: "t1 div 1000 \<noteq> 0"
    by (simp add: zdiv_eq_0_iff)
  with c have lh: "last_hit s now roomId u = (now div 1000 - t1 div 1000 < 2)"
    by (simp add: last_hit_num)
  then show "last_hit s now roomId u = (now div 1000 - t1 div 1000 < CHAT_MIN_INTERVAL_SECONDS)"
    by (simp add: CHAT_MIN_INTERVAL_SECONDS_def)
  {
    assume "t1 + CHAT_MIN_INTERVAL_SECONDS * 1000 \<le> now"
    then show "\<not> last_hit s now roomId u"
      using whole_seconds(1) [of t1 now] lh by (simp add: CHAT_MIN_INTERVAL_SECONDS_def)
  }
  {
    assume "t1 \<le> now \<and> now \<le> t1 + 1000"
    then show "last_hit s now roomId u"
      using whole_seconds(2) [of t1 now] lh by simp
  }
next
  assume d: "USERNAME_REGEX_test (toLowerCase ou) \<and> ROOM_ID_REGEX_test roomId \<and>
    c1 \<noteq> [] \<and> c2 \<noteq> [] \<and> c3 \<noteq> [] \<and> c4 \<noteq> [] \<and>
    public_room s now roomId \<and> public_room s t2 roomId \<and> public_room s t3 roomId \<and>
    public_room s t4 roomId \<and> peek s now (shortKey roomId (toLowerCase ou)) = None \<and>
    now \<le> t2 \<and> t2 \<le> t3 \<and> t3 \<le> t4 \<and> t4 < now + CHAT_BURST_SHORT_WINDOW_SECONDS * 1000"
  then have "t4 < now + 10000"
    by (simp add: CHAT_BURST_SHORT_WINDOW_SECONDS_def)
  with d show "fst (handleSendMessage flt roomId ou c4 r4 t4
        (snd (handleSendMessage flt roomId ou c3 r3 t3
          (snd (handleSendMessage flt roomId ou c2 r2 t2
            (snd (handleSendMessage flt roomId ou c1 r1 now s))))))) = tooQuickly"
    by (intro four_sends) simp_all
qed

text \<open>
  Claim C5, evaluated at the minimum interval of 2 seconds between messages
  (\<open>CHAT_MIN_INTERVAL_SECONDS\<close>). The limiter records and compares
  \<open>Math.floor(Date.now() / 1000)\<close>. In the public room \<open>general\<close> a message sent at
  1000.950 s is recorded as second 1000, and a second message 1900 ms later, at 1002.850 s,
  is accepted and stored. The same happens for a message at 1000.999 s followed by one only
  1001 ms later, at 1002.000 s. A message 1000 ms after the first, at 1001.999 s, is
  answered with the interval error.
\<close>

theorem C5_interval_on_whole_seconds:
  "public_room store_general 1000950 ''general'' \<and>
   fst (handleSendMessage flt_plain ''general'' ''alice'' ''one'' 7 1000950 store_general) =
     Response 201 (MessageBody
       \<lparr>msg_id = ''00000000000000000000000000000007'', msg_roomId = ''general'',
        msg_username = ''alice'', msg_content = ''one'', msg_timestamp = 1000950\<rparr>) \<and>
   redis_get
     (snd (handleSendMessage flt_plain ''general'' ''alice'' ''one'' 7 1000950 store_general))
     1002850 (lastKey ''general'' ''alice'') = Ret (Some (Num 1000)) \<and>
   fst (handleSendMessage flt_plain ''general'' ''alice'' ''two'' 8 1002850
     (snd (handleSendMessage flt_plain ''general'' ''alice'' ''one'' 7 1000950 store_general))) =
     Response 201 (MessageBody
       \<lparr>msg_id = ''00000000000000000000000000000008'', msg_roomId = ''general'',
        msg_username = ''alice'', msg_content = ''two'', msg_timestamp = 1002850\<rparr>) \<and>
   (1002850 :: int) - 1000950 = 1900 \<and>
   fst (handleSendMessage flt_plain ''general'' ''alice'' ''one'' 7 1000999 store_general) =
     Response 201 (MessageBody
       \<lparr>msg_id = ''00000000000000000000000000000007'', msg_roomId = ''general'',
        msg_username = ''alice'', msg_content = ''one'', msg_timestamp = 1000999\<rparr>) \<and>
   fst (handleSendMessage flt_plain ''general'' ''alice'' ''two'' 8 1002000
     (snd (handleSendMessage flt_plain ''general'' ''alice'' ''one'' 7 1000999 store_general))) =
     Response 201 (MessageBody
       \<lparr>msg_id = ''00000000000000000000000000000008'', msg_roomId = ''general'',
        msg_username = ''alice'', msg_content = ''two'', msg_timestamp = 1002000\<rparr>) \<and>
   (1002000 :: int) - 1000999 = 1001 \<and>
   fst (handleSendMessage flt_plain ''general'' ''alice'' ''two'' 8 1001999
     (snd (handleSendMessage flt_plain ''general'' ''alice'' ''one'' 7 1000999 store_general))) =
     Response 429 (ErrorBody ''Please wait a moment before sending another message.'')"
  by code_simp

section \<open>Properties: repeated messages\<close>

lemma users_key_neq [simp]:
  "CHAT_USERS_PREFIX @ u \<noteq> CHAT_ROOM_PRESENCE_PREFIX @ p"
  "CHAT_USERS_PREFIX @ u \<noteq> CHAT_MESSAGES_PREFIX @ p"
  "CHAT_USERS_PREFIX @ u \<noteq> shortKey a b"
  "CHAT_USERS_PREFIX @ u \<noteq> longKey a b"
  "CHAT_USERS_PREFIX @ u \<noteq> lastKey a b"
  by (simp_all add: CHAT_USERS_PREFIX_def CHAT_ROOM_PRESENCE_PREFIX_def CHAT_MESSAGES_PREFIX_def
        shortKey_def longKey_def lastKey_def CHAT_BURST_PREFIX_def)

















section \<open>Properties: logging out all devices\<close>

text \<open>
  Claim C8, evaluated. After a single token has been issued to \<open>alice\<close> the store holds one
  per-identity token key for her; \<open>handleLogoutAllDevices\<close> removes the four keys that
  \<open>handleGenerateToken\<close> wrote and reports a \<open>deletedCount\<close> of 3: the token itself, the
  legacy key \<open>chat:token:alice\<close> and the grace record \<open>chat:token:last:alice\<close> are each
  counted. For the user named \<open>token\<close> every key \<open>chat:token:...\<close> contains the text
  \<open>:token:\<close>, so the scan of the flat mappings skips them all: a token that exists only as
  a flat mapping is not removed, 0 is reported, and the token still validates afterwards.
\<close>

theorem C8_logout_all_devices:
  "redis_scan (getUserTokenPattern ''alice'') 5000 store_alice_ff =
     [getUserTokenKey ''alice'' token_ff] \<and>
   handleLogoutAllDevices ''alice'' 5000 store_alice_ff =
     (Response 200 (LogoutBody 3), store_alice) \<and>
   fst (validateAuth ''token'' token_ff False 5000 store_token_old) = Ret (Valid False) \<and>
   handleLogoutAllDevices ''token'' 5000 store_token_old =
     (Response 200 (LogoutBody 0), store_token_old) \<and>
   fst (validateAuth ''token'' token_ff False 6000
     (snd (handleLogoutAllDevices ''token'' 5000 store_token_old))) = Ret (Valid False)"
  by code_simp

section \<open>Properties: reading messages\<close>

lemma lrange_log:
  "redis_lrange s now (CHAT_MESSAGES_PREFIX @ r) 0 19 = Ret xs \<Longrightarrow>
   xs = take 20 (message_log s now r)"
  by (auto simp: redis_lrange_def message_log_def list_of_def split: option.splits rval.splits)

lemma handleGetMessages_found:
  assumes "ROOM_ID_REGEX_test roomId" "redis_exists s now (CHAT_ROOM_PREFIX @ roomId)"
    "redis_lrange s now (CHAT_MESSAGES_PREFIX @ roomId) 0 19 \<noteq> Throw"
  shows "handleGetMessages roomId now s =
     (Response 200 (MessagesBody (parsed_messages (take 20 (message_log s now roomId)))), s)"
proof (cases "redis_lrange s now (CHAT_MESSAGES_PREFIX @ roomId) 0 19")
  case (Ret xs)
  then show ?thesis
    using assms(1,2) lrange_log [OF Ret] by (simp add: handleGetMessages_def)
next
  case Throw
  with assms(3) show ?thesis by simp
qed

text \<open>
  Claim C9. A \<open>GET\<close> request with action \<open>getMessages\<close> for a well-formed id of an existing
  room, whose log is absent or a list, is answered 200 with the parsed first 20 entries of
  the log (the 20 most recent messages) and leaves the store unchanged. The statement places
  no condition on the authorization headers, on the room's type or on its member list:
  the request may be anonymous and the room private.
\<close>

theorem C9_getMessages_without_auth:
  assumes "param_action req = Some ''getMessages''" "param_roomId req = Some roomId"
    and "ROOM_ID_REGEX_test roomId"
    and "redis_exists s now (CHAT_ROOM_PREFIX @ roomId)"
    and "redis_lrange s now (CHAT_MESSAGES_PREFIX @ roomId) 0 19 \<noteq> Throw"
  shows "GET other req now s =
     (Response 200 (MessagesBody (parsed_messages (take 20 (message_log s now roomId)))), s)"
proof -
  from assms(3) have "roomId \<noteq> []"
    by (auto simp: ROOM_ID_REGEX_test_def)
  with assms show ?thesis
    by (simp add: GET_def GET_publicActions_def GET_switch_def or_empty_def
          handleGetMessages_found)
qed

theorem C9_getMessages_without_auth_witness:
  "private_room store_priv_chat 5000 ''priv1'' \<and>
   GET invalid_action
     \<lparr>param_action = Some ''getMessages'', param_roomId = Some ''priv1'',
      header_authorization = None, header_x_username = None\<rparr> 5000 store_priv_chat =
     (Response 200 (MessagesBody [msg_priv]), store_priv_chat)"
proof -
  let ?req = "\<lparr>param_action = Some ''getMessages'', param_roomId = Some ''priv1'',
      header_authorization = None, header_x_username = None\<rparr>"
  have priv: "private_room store_priv_chat 5000 ''priv1''"
    by code_simp
  have h: "ROOM_ID_REGEX_test ''priv1''"
    "redis_exists store_priv_chat 5000 (CHAT_ROOM_PREFIX @ ''priv1'')"
    "redis_lrange store_priv_chat 5000 (CHAT_MESSAGES_PREFIX @ ''priv1'') 0 19 \<noteq> Throw"
    by code_simp+
  have log: "parsed_messages (take 20 (message_log store_priv_chat 5000 ''priv1'')) = [msg_priv]"
    by code_simp
  show ?thesis
    using C9_getMessages_without_auth [of ?req "''priv1''" store_priv_chat 5000 invalid_action] h priv
    by (simp add: log)
qed

section \<open>Properties: leaving a private room\<close>

text \<open>
  Claim C7, evaluated on a private room \<open>priv1\<close> with the two members \<open>alice\<close> and \<open>bob\<close>,
  one stored message and a presence entry for each member. When \<open>alice\<close> leaves through
  \<open>handleDeleteRoom\<close>, the room record, the message log and both presence entries are
  removed. When she leaves through \<open>handleLeaveRoom\<close>, the room record and the message log
  are removed but the presence entry of \<open>bob\<close> stays in the store. When she has no live
  presence entry, \<open>handleLeaveRoom\<close> answers with success and changes nothing: the room
  stays as it was, with both members.
\<close>

theorem C7_leaving_a_private_room:
  "handleDeleteRoom ''priv1'' ''alice'' 5000 store_priv_chat = (Response 200 SuccessBody, []) \<and>
   handleLeaveRoom ''priv1'' ''alice'' 5000 store_priv_chat =
     (Response 200 SuccessBody,
      [(''chat:presence:priv1:bob'', \<lparr>e_val = Num 950, e_exp = Some 86400950\<rparr>)]) \<and>
   redis_exists (snd (handleLeaveRoom ''priv1'' ''alice'' 5000 store_priv_chat)) 5000
     (CHAT_ROOM_PRESENCE_PREFIX @ ''priv1'' @ '':'' @ ''bob'') \<and>
   handleLeaveRoom ''priv1'' ''alice'' 5000 store_priv_idle =
     (Response 200 SuccessBody, store_priv_idle) \<and>
   redis_get store_priv_idle 5000 (CHAT_ROOM_PREFIX @ ''priv1'') = Ret (Some (Room room_priv)) \<and>
   room_members room_priv = Some [''alice'', ''bob'']"
  by code_simp

end
